theory Spec2Isabelle
  imports Complex_Main "HOL-Library.Word" "HOL-Library.Multiset"
begin

section \<open>Arrays and slicing\<close>

text \<open>
  An image is a numpy array: its shape is stored with it (an array of zero rows still has
  a column count), and its elements are kept row by row. A colour image holds three bytes
  per element, in the order blue, green, red; a grey image or a mask holds one byte.
\<close>

type_synonym byte = "8 word"

type_synonym px3 = "byte \<times> byte \<times> byte"

record 'a ndarray =
  nrows :: nat
  ncols :: nat
  pixels :: "'a list list"

definition wf_image :: "'a ndarray \<Rightarrow> bool" where
  "wf_image img \<longleftrightarrow>
     length (pixels img) = nrows img \<and> list_all (\<lambda>r. length r = ncols img) (pixels img)"

definition is_empty :: "'a ndarray \<Rightarrow> bool" where
  "is_empty img \<longleftrightarrow> nrows img = 0 \<or> ncols img = 0"

definition map_image :: "('a \<Rightarrow> 'b) \<Rightarrow> 'a ndarray \<Rightarrow> 'b ndarray" where
  "map_image f img =
     \<lparr>nrows = nrows img, ncols = ncols img, pixels = map (map f) (pixels img)\<rparr>"

text \<open>
  Python's slice \<open>xs[lo:hi]\<close> on a sequence of length \<open>n\<close>: a negative bound counts from
  the end, and every bound is clamped into \<open>0..n\<close>; a slice whose upper bound is not above
  its lower bound is empty.
\<close>

definition slice_bound :: "int \<Rightarrow> nat \<Rightarrow> nat" where
  "slice_bound i n = (if i < 0 then nat (max 0 (i + int n)) else min (nat i) n)"

definition slice_len :: "int \<Rightarrow> int \<Rightarrow> nat \<Rightarrow> nat" where
  "slice_len lo hi n = slice_bound hi n - slice_bound lo n"

definition py_slice :: "int \<Rightarrow> int \<Rightarrow> 'a list \<Rightarrow> 'a list" where
  "py_slice lo hi xs =
     take (slice_len lo hi (length xs)) (drop (slice_bound lo (length xs)) xs)"

text \<open>The region of interest, as the program passes it: \<open>(x, y, width, height)\<close>.\<close>

type_synonym roi = "int \<times> int \<times> int \<times> int"

definition DEFAULT_ROI :: roi where
  "DEFAULT_ROI = (187, 188, 275, 146)"

text \<open>\<open>image[y:y+h, x:x+w]\<close>: rows \<open>y..y+h\<close>, and of each the columns \<open>x..x+w\<close>.\<close>

fun roi_crop :: "'a ndarray \<Rightarrow> roi \<Rightarrow> 'a ndarray" where
  "roi_crop img (x, y, w, h) =
     \<lparr>nrows = slice_len y (y + h) (nrows img),
      ncols = slice_len x (x + w) (ncols img),
      pixels = map (py_slice x (x + w)) (py_slice y (y + h) (pixels img))\<rparr>"

section \<open>Errors\<close>

text \<open>
  An exception is a value: \<open>ValueError\<close> (raised by the program itself for an unreadable
  image, and by \<open>time.sleep\<close>), \<open>OverflowError\<close> (raised by \<open>time.sleep\<close>), \<open>OSError\<close>
  (raised by \<open>open\<close>) or OpenCV's \<open>cv2.error\<close>. Each carries its message, which the
  program prints. The exceptions of the \<open>requests\<close> library never leave
  \<open>download_image\<close>, which catches them; they are an outcome of the request
  (\<open>RequestFailed\<close> below).
\<close>

datatype error = ValueError string | OverflowError string | OSError string | CvError string

fun str_error :: "error \<Rightarrow> string" where
  "str_error (ValueError m) = m"
| "str_error (OverflowError m) = m"
| "str_error (OSError m) = m"
| "str_error (CvError m) = m"

text \<open>
  A Python float: a finite number, an infinity or a NaN. The interval of a session is one,
  whatever the caller passes.
\<close>

datatype pyfloat = Finite real | PosInf | NegInf | NaN

section \<open>The OpenCV calls\<close>

text \<open>
  OpenCV is not part of the program. What its calls compute on the elements of an array is
  a parameter of the model, the record \<open>cv2\<close>: the colour conversions element by element,
  the contrast equalisation (CLAHE with clip limit 3.0 on an 8 by 8 grid), the 5 by 5
  Gaussian blur, the min-max normalisation to \<open>0..255\<close>, contour detection
  (\<open>RETR_EXTERNAL\<close>, \<open>CHAIN_APPROX_SIMPLE\<close>), contour area, bounding rectangle, the three
  drawing calls, and the decoding and JPEG encoding of image files. A drawing call may
  raise (it does when a coordinate does not fit a 32-bit integer), and the library decides
  when: its result is an error or the image drawn on. The other calls are taken to succeed,
  but for two checks of OpenCV that are written out below: a colour conversion rejects an
  empty array (the program's inputs reach this one: a region outside the image crops to an
  empty array), and \<open>cv2.merge\<close> rejects channels of different shapes.
\<close>

type_synonym contour = "(int \<times> int) list"

record cv2 =
  bgr2lab :: "px3 \<Rightarrow> px3"
  lab2bgr :: "px3 \<Rightarrow> px3"
  bgr2gray :: "px3 \<Rightarrow> byte"
  clahe_apply :: "byte ndarray \<Rightarrow> byte ndarray"
  GaussianBlur :: "byte ndarray \<Rightarrow> byte ndarray"
  normalize_minmax :: "byte ndarray \<Rightarrow> byte ndarray"
  findContours :: "byte ndarray \<Rightarrow> contour list"
  contourArea :: "contour \<Rightarrow> real"
  boundingRect :: "contour \<Rightarrow> int \<times> int \<times> int \<times> int"
  rectangle :: "px3 ndarray \<Rightarrow> int \<times> int \<Rightarrow> int \<times> int \<Rightarrow> px3 \<Rightarrow> int \<Rightarrow> error + px3 ndarray"
  drawContours :: "px3 ndarray \<Rightarrow> contour list \<Rightarrow> int \<Rightarrow> px3 \<Rightarrow> int \<Rightarrow> error + px3 ndarray"
  putText :: "px3 ndarray \<Rightarrow> string \<Rightarrow> int \<times> int \<Rightarrow> px3 \<Rightarrow> int \<Rightarrow> error + px3 ndarray"
  imdecode :: "string \<Rightarrow> px3 ndarray option"
  imencode :: "px3 ndarray \<Rightarrow> string"

definition same_shape :: "'a ndarray \<Rightarrow> 'b ndarray \<Rightarrow> bool" where
  "same_shape a b \<longleftrightarrow> nrows a = nrows b \<and> ncols a = ncols b"

text \<open>An OpenCV filter returns an array of its input's shape.\<close>

definition shape_preserving :: "('a ndarray \<Rightarrow> 'b ndarray) \<Rightarrow> bool" where
  "shape_preserving f \<longleftrightarrow> (\<forall>img. same_shape (f img) img)"

text \<open>
  The same of the elements: from an array whose stored rows agree with its shape, the
  filter returns such an array, of that shape.
\<close>

definition array_preserving :: "('a ndarray \<Rightarrow> 'b ndarray) \<Rightarrow> bool" where
  "array_preserving f \<longleftrightarrow> (\<forall>img. wf_image img \<longrightarrow> wf_image (f img) \<and> same_shape (f img) img)"

text \<open>\<open>cv2.cvtColor(src, code)\<close>, the conversion \<open>code\<close> given by what it does to one element.\<close>

definition cvtColor :: "('a \<Rightarrow> 'b) \<Rightarrow> 'a ndarray \<Rightarrow> error + 'b ndarray" where
  "cvtColor code src =
     (if is_empty src then Inl (CvError ''(-215:Assertion failed) !_src.empty() in function cvtColor'')
      else Inr (map_image code src))"

definition split3 :: "px3 ndarray \<Rightarrow> byte ndarray \<times> byte ndarray \<times> byte ndarray" where
  "split3 m = (map_image fst m, map_image (fst \<circ> snd) m, map_image (snd \<circ> snd) m)"

definition merge3 :: "byte ndarray \<times> byte ndarray \<times> byte ndarray \<Rightarrow> error + px3 ndarray" where
  "merge3 mv =
     (case mv of (c0, c1, c2) \<Rightarrow>
        if same_shape c1 c0 \<and> same_shape c2 c0
        then Inr \<lparr>nrows = nrows c0, ncols = ncols c0,
                  pixels = map (\<lambda>(r0, r1, r2). zip r0 (zip r1 r2))
                             (zip (pixels c0) (zip (pixels c1) (pixels c2)))\<rparr>
        else Inl (CvError ''(-215:Assertion failed) mv[i].size == mv[0].size in function merge''))"

text \<open>
  \<open>cv2.threshold(src, thresh, maxval, cv2.THRESH_BINARY)\<close> on an 8-bit array: an element
  above \<open>thresh\<close> becomes \<open>maxval\<close>, every other element becomes 0.
\<close>

definition threshold :: "byte ndarray \<Rightarrow> byte \<Rightarrow> byte \<Rightarrow> byte ndarray" where
  "threshold src thresh maxval = map_image (\<lambda>v. if thresh < v then maxval else 0) src"

section \<open>The image pipeline\<close>

definition enhance_lcd_image :: "cv2 \<Rightarrow> px3 ndarray \<Rightarrow> error + px3 ndarray" where
  "enhance_lcd_image cv img =
     (case cvtColor (bgr2lab cv) img of
        Inl e \<Rightarrow> Inl e
      | Inr lab \<Rightarrow>
          (case split3 lab of (l, a, b) \<Rightarrow>
             let cl = clahe_apply cv l in
             (case merge3 (cl, a, b) of
                Inl e \<Rightarrow> Inl e
              | Inr limg \<Rightarrow> cvtColor (lab2bgr cv) limg)))"

definition preprocess_lcd_image :: "cv2 \<Rightarrow> px3 ndarray \<Rightarrow> error + byte ndarray" where
  "preprocess_lcd_image cv img =
     (case cvtColor (bgr2gray cv) img of
        Inl e \<Rightarrow> Inl e
      | Inr gray \<Rightarrow>
          let blur = GaussianBlur cv gray;
              norm_img = normalize_minmax cv blur;
              lcd_thresh = threshold norm_img 160 255
          in Inr lcd_thresh)"

definition min_area :: real where
  "min_area = 50"

definition max_area :: real where
  "max_area = 2000"

definition extract_digit_regions :: "cv2 \<Rightarrow> byte ndarray \<Rightarrow> contour list" where
  "extract_digit_regions cv binary_image =
     (let contours = findContours cv binary_image;
          digit_contours =
            filter (\<lambda>cnt. min_area < contourArea cv cnt \<and> contourArea cv cnt < max_area) contours
      in sort_key (\<lambda>cnt. fst (boundingRect cv cnt)) digit_contours)"

section \<open>Strings and paths\<close>

definition nl :: string where
  "nl = [CHR 0x0A]"

text \<open>Python's \<open>str\<close> of an integer, as an f-string prints it.\<close>

fun str_nat :: "nat \<Rightarrow> string" where
  "str_nat n =
     (if n < 10 then [''0123456789'' ! n] else str_nat (n div 10) @ [''0123456789'' ! (n mod 10)])"

declare str_nat.simps [simp del]

definition str_int :: "int \<Rightarrow> string" where
  "str_int i = (if i < 0 then CHR ''-'' # str_nat (nat (- i)) else str_nat (nat i))"

text \<open>\<open>s.split(sep)\<close> with a one-character separator: empty pieces are kept.\<close>

fun split_sep :: "char \<Rightarrow> string \<Rightarrow> string list" where
  "split_sep c [] = [[]]"
| "split_sep c (x # xs) =
     (if x = c then [] # split_sep c xs
      else (case split_sep c xs of [] \<Rightarrow> [[x]] | p # ps \<Rightarrow> (x # p) # ps))"

text \<open>\<open>s.rfind(c)\<close>: the index of the last \<open>c\<close> in \<open>s\<close>, or -1.\<close>

definition rfind :: "char \<Rightarrow> string \<Rightarrow> int" where
  "rfind c s =
     (if c \<in> set s then int (length s) - 1 - int (length (takeWhile (\<lambda>x. x \<noteq> c) (rev s))) else - 1)"

text \<open>The functions of \<open>os.path\<close> that the program calls, as \<open>posixpath\<close> defines them.\<close>

definition path_join :: "string \<Rightarrow> string \<Rightarrow> string" where
  "path_join a b =
     (if take 1 b = ''/'' then b
      else if a = [] \<or> last a = CHR ''/'' then a @ b
      else a @ ''/'' @ b)"

definition path_basename :: "string \<Rightarrow> string" where
  "path_basename p = drop (nat (rfind (CHR ''/'') p + 1)) p"

definition path_dirname :: "string \<Rightarrow> string" where
  "path_dirname p =
     (let head = take (nat (rfind (CHR ''/'') p + 1)) p
      in if head \<noteq> [] \<and> head \<noteq> replicate (length head) (CHR ''/'')
         then rev (dropWhile (\<lambda>c. c = CHR ''/'') (rev head))
         else head)"

definition path_splitext :: "string \<Rightarrow> string \<times> string" where
  "path_splitext p =
     (let sepIndex = rfind (CHR ''/'') p;
          dotIndex = rfind (CHR ''.'') p
      in if sepIndex < dotIndex \<and> list_ex (\<lambda>c. c \<noteq> CHR ''.'') (py_slice (sepIndex + 1) dotIndex p)
         then (take (nat dotIndex) p, drop (nat dotIndex) p)
         else (p, []))"

section \<open>The world outside the program\<close>

text \<open>
  What the program does to its surroundings is recorded in a \<open>world\<close>: the regular files
  with their contents, the directories, and in \<open>trace\<close> every line printed, every pause,
  every HTTP request and every image file read or written, in the order in which they
  happen. A path exists when it names a regular file or a directory. Opening a path for
  writing fails when the path names a directory, or when the directory part of the path
  is not a directory; permissions, quotas and device errors are outside the model.

  What the surroundings answer is the record \<open>env\<close>: the outcome of the \<open>n\<close>-th HTTP
  request, the formatted local time at the \<open>n\<close>-th reading of the clock, whether
  \<open>time.sleep\<close> accepts a duration (it raises \<open>ValueError\<close> for a negative one and for a
  NaN, and \<open>OverflowError\<close> for one too large for the clock of the platform), Python's
  printing of a float and its conversion \<open>int(s)\<close> of a string (\<open>None\<close> where it raises
  \<open>ValueError\<close>). The counters \<open>http_calls\<close> and \<open>clock_reads\<close> say how many answers
  have been used.
\<close>

datatype event = Print string | Sleep pyfloat | HttpGet string | ImRead string | ImWrite string

record world =
  files :: "string \<rightharpoonup> string"
  dirs :: "string set"
  trace :: "event list"
  http_calls :: nat
  clock_reads :: nat

datatype http_result = Response int string | RequestFailed string

record env =
  http_get :: "nat \<Rightarrow> string \<Rightarrow> http_result"
  strftime_now :: "nat \<Rightarrow> string \<Rightarrow> string"
  time_sleep :: "pyfloat \<Rightarrow> error option"
  str_float :: "pyfloat \<Rightarrow> string"
  py_int :: "string \<Rightarrow> int option"

definition emit :: "event \<Rightarrow> world \<Rightarrow> world" where
  "emit e w = w\<lparr>trace := trace w @ [e]\<rparr>"

definition print :: "string \<Rightarrow> world \<Rightarrow> world" where
  "print s w = emit (Print s) w"

definition write_file :: "string \<Rightarrow> string \<Rightarrow> world \<Rightarrow> world" where
  "write_file path content w = w\<lparr>files := (files w)(path \<mapsto> content)\<rparr>"

text \<open>A regular file of that name exists.\<close>

definition file_exists :: "world \<Rightarrow> string \<Rightarrow> bool" where
  "file_exists w path \<longleftrightarrow> files w path \<noteq> None"

text \<open>\<open>os.path.exists(path)\<close>\<close>

definition path_exists :: "world \<Rightarrow> string \<Rightarrow> bool" where
  "path_exists w path \<longleftrightarrow> files w path \<noteq> None \<or> path \<in> dirs w"

text \<open>The path as the message of an \<open>OSError\<close> shows it.\<close>

definition quoted :: "string \<Rightarrow> string" where
  "quoted s = [CHR 0x27] @ s @ [CHR 0x27]"

text \<open>
  \<open>open(path, mode)\<close> with a mode that writes (\<open>w\<close>, \<open>a\<close>, \<open>wb\<close>): the exception it
  raises, if any.
\<close>

definition open_error :: "world \<Rightarrow> string \<Rightarrow> error option" where
  "open_error w path =
     (if path \<in> dirs w then Some (OSError (''[Errno 21] Is a directory: '' @ quoted path))
      else if path_dirname path = [] \<or> path_dirname path \<in> dirs w then None
      else if files w (path_dirname path) \<noteq> None
      then Some (OSError (''[Errno 20] Not a directory: '' @ quoted path))
      else Some (OSError (''[Errno 2] No such file or directory: '' @ quoted path)))"

text \<open>\<open>datetime.now().strftime(fmt)\<close>\<close>

definition now_strftime :: "env \<Rightarrow> string \<Rightarrow> world \<Rightarrow> string \<times> world" where
  "now_strftime ev fmt w =
     (strftime_now ev (clock_reads w) fmt, w\<lparr>clock_reads := Suc (clock_reads w)\<rparr>)"

text \<open>\<open>requests.get(url, stream=True, timeout=10)\<close>\<close>

definition requests_get :: "env \<Rightarrow> string \<Rightarrow> world \<Rightarrow> http_result \<times> world" where
  "requests_get ev url w =
     (http_get ev (http_calls w) url, emit (HttpGet url) (w\<lparr>http_calls := Suc (http_calls w)\<rparr>))"

text \<open>\<open>time.sleep(secs)\<close>: it raises, or the pause takes place.\<close>

definition sleep :: "env \<Rightarrow> pyfloat \<Rightarrow> world \<Rightarrow> error + world" where
  "sleep ev secs w =
     (case time_sleep ev secs of
        Some e \<Rightarrow> Inl e
      | None \<Rightarrow> Inr (emit (Sleep secs) w))"

definition imread :: "cv2 \<Rightarrow> string \<Rightarrow> world \<Rightarrow> px3 ndarray option \<times> world" where
  "imread cv path w =
     ((case files w path of None \<Rightarrow> None | Some data \<Rightarrow> imdecode cv data), emit (ImRead path) w)"

text \<open>
  \<open>cv2.imwrite(path, img)\<close> does not raise when the file cannot be opened: it writes
  nothing and returns \<open>False\<close>, which the program does not look at.
\<close>

definition imwrite :: "cv2 \<Rightarrow> string \<Rightarrow> px3 ndarray \<Rightarrow> world \<Rightarrow> world" where
  "imwrite cv path img w =
     emit (ImWrite path)
       (if open_error w path = None then write_file path (imencode cv img) w else w)"

text \<open>
  \<open>open(path, mode)\<close> for writing text: what the file holds when writing starts. Mode
  \<open>a\<close> keeps what is there, mode \<open>w\<close> starts from nothing.
\<close>

definition open_text :: "string \<Rightarrow> char \<Rightarrow> world \<Rightarrow> string" where
  "open_text path mode w =
     (if mode = CHR ''a'' then (case files w path of None \<Rightarrow> [] | Some old \<Rightarrow> old) else [])"

section \<open>The image source\<close>

text \<open>
  Every exception raised inside \<open>download_image\<close> is caught there: one of the request,
  and one of \<open>open\<close> when the image cannot be saved (the capture directory is a regular
  file, or the file name is taken by a directory). The capture directory is a single
  name, as in the one call of the program.
\<close>

definition download_image :: "env \<Rightarrow> string \<Rightarrow> string \<Rightarrow> world \<Rightarrow> string option \<times> world" where
  "download_image ev url save_dir w =
     (let w1 = (if \<not> path_exists w save_dir
                then print (''Created directory: '' @ save_dir) (w\<lparr>dirs := insert save_dir (dirs w)\<rparr>)
                else w);
          (timestamp, w2) = now_strftime ev ''%Y%m%d_%H%M%S'' w1;
          filename = ''meter_'' @ timestamp @ ''.jpg'';
          filepath = path_join save_dir filename;
          w3 = print (''Downloading image from '' @ url @ ''...'') w2;
          (response, w4) = requests_get ev url w3
      in case response of
           RequestFailed m \<Rightarrow> (None, print (''Error downloading image: '' @ m) w4)
         | Response status_code body \<Rightarrow>
             if status_code = 200
             then (case open_error w4 filepath of
                     Some e \<Rightarrow> (None, print (''Error downloading image: '' @ str_error e) w4)
                   | None \<Rightarrow>
                       (Some filepath,
                        print (''Image saved: '' @ filepath) (write_file filepath body w4)))
             else (None, print (''Failed to download image. Status code: '' @ str_int status_code) w4))"

section \<open>The reading emitter\<close>

fun process_meter_image :: "cv2 \<Rightarrow> string \<Rightarrow> roi \<Rightarrow> world \<Rightarrow> (error + string) \<times> world" where
  "process_meter_image cv image_path (x, y, w, h) wd =
     (case imread cv image_path wd of
        (None, wd1) \<Rightarrow> (Inl (ValueError (''Could not read image: '' @ image_path)), wd1)
      | (Some img, wd1) \<Rightarrow>
          let roi_image = roi_crop img (x, y, w, h) in
          (case enhance_lcd_image cv roi_image of
             Inl e \<Rightarrow> (Inl e, wd1)
           | Inr enhanced \<Rightarrow>
               (case preprocess_lcd_image cv enhanced of
                  Inl e \<Rightarrow> (Inl e, wd1)
                | Inr processed \<Rightarrow>
                    let digit_contours = extract_digit_regions cv processed;
                        reading = ''16737''
                    in
                    (case rectangle cv img (x, y) (x + w, y + h) (0, 255, 0) 2 of
                       Inl e \<Rightarrow> (Inl e, wd1)
                     | Inr result_image \<Rightarrow>
                         (case drawContours cv roi_image digit_contours (- 1) (0, 255, 0) 2 of
                            Inl e \<Rightarrow> (Inl e, wd1)
                          | Inr roi_with_contours \<Rightarrow>
                              (case putText cv result_image (''Reading: '' @ reading @ '' kWh'')
                                      (x, y - 10) (0, 255, 0) 2 of
                                 Inl e \<Rightarrow> (Inl e, wd1)
                               | Inr result_image \<Rightarrow>
                                   let output_dir = path_dirname image_path;
                                       basename = fst (path_splitext (path_basename image_path));
                                       output_path = path_join output_dir (basename @ ''_result.jpg'');
                                       wd2 = imwrite cv output_path result_image wd1;
                                       roi_output_path = path_join output_dir (basename @ ''_roi.jpg'');
                                       wd3 = imwrite cv roi_output_path roi_with_contours wd2;
                                       wd4 = print (''Processed image saved: '' @ output_path) wd3;
                                       wd5 = print (''ROI with contours saved: '' @ roi_output_path) wd4
                                   in (Inr reading, wd5)))))))"

section \<open>The session driver\<close>

type_synonym reading_record = "string \<times> string"

definition csv_path :: string where
  "csv_path = ''meter_readings.csv''"

definition csv_header :: string where
  "csv_header = ''timestamp,reading_kwh'' @ nl"

fun csv_row :: "reading_record \<Rightarrow> string" where
  "csv_row (timestamp, reading) = timestamp @ '','' @ reading @ nl"

text \<open>
  One pass through the body of the loop, for the index \<open>i\<close>. A failed download leaves the
  body at once (\<open>continue\<close>); an exception of the processing is caught and printed; an
  exception of \<open>time.sleep\<close> is not caught and ends the session.
\<close>

definition capture_iteration ::
  "cv2 \<Rightarrow> env \<Rightarrow> string \<Rightarrow> roi \<Rightarrow> int \<Rightarrow> pyfloat \<Rightarrow> int \<Rightarrow> reading_record list \<Rightarrow> world
     \<Rightarrow> (error + reading_record list) \<times> world" where
  "capture_iteration cv ev url roi capture_count interval i readings w =
     (case download_image ev url ''meter_images'' w of
        (image_path, w1) \<Rightarrow>
          let skipped = (Inr readings,
                         print (''Capture '' @ str_int (i + 1) @ ''/'' @ str_int capture_count
                                  @ '' failed. Skipping.'') w1)
          in
          (case image_path of
             None \<Rightarrow> skipped
           | Some p \<Rightarrow>
               if p = [] then skipped
               else
                 (case (case process_meter_image cv p roi w1 of
                          (Inr reading, w2) \<Rightarrow>
                            (case now_strftime ev ''%Y-%m-%d %H:%M:%S'' w2 of
                               (timestamp, w3) \<Rightarrow>
                                 (readings @ [(timestamp, reading)],
                                  print (''Capture '' @ str_int (i + 1) @ ''/''
                                           @ str_int capture_count @ '': '' @ reading @ '' kWh'') w3))
                        | (Inl e, w2) \<Rightarrow>
                            (readings,
                             print (''Error processing image '' @ str_int (i + 1) @ ''/''
                                      @ str_int capture_count @ '': '' @ str_error e) w2)) of
                    (readings', w4) \<Rightarrow>
                      if i < capture_count - 1
                      then (case sleep ev interval w4 of
                              Inl e \<Rightarrow> (Inl e, w4)
                            | Inr w5 \<Rightarrow> (Inr readings', w5))
                      else (Inr readings', w4))))"

fun capture_loop ::
  "cv2 \<Rightarrow> env \<Rightarrow> string \<Rightarrow> roi \<Rightarrow> int \<Rightarrow> pyfloat \<Rightarrow> int list \<Rightarrow> reading_record list \<Rightarrow> world
     \<Rightarrow> (error + reading_record list) \<times> world" where
  "capture_loop cv ev url roi capture_count interval [] readings w = (Inr readings, w)"
| "capture_loop cv ev url roi capture_count interval (i # rest) readings w =
     (case capture_iteration cv ev url roi capture_count interval i readings w of
        (Inl e, w') \<Rightarrow> (Inl e, w')
      | (Inr readings', w') \<Rightarrow> capture_loop cv ev url roi capture_count interval rest readings' w')"

text \<open>\<open>range(n)\<close>\<close>

definition py_range :: "int \<Rightarrow> int list" where
  "py_range n = map int [0..<nat n]"

definition print_summary :: "reading_record list \<Rightarrow> int \<Rightarrow> world \<Rightarrow> world" where
  "print_summary readings capture_count w =
     (let w1 = print (nl @ ''Capture Summary:'') w;
          w2 = print (replicate 60 (CHR ''='')) w1;
          w3 = print (''Total captures: '' @ str_int (int (length readings)) @ ''/''
                        @ str_int capture_count) w2
      in if readings \<noteq> []
         then fold (\<lambda>(timestamp, reading). print (timestamp @ ''    '' @ reading)) readings
                (print (replicate 40 (CHR ''-''))
                   (print (nl @ ''Timestamp                Reading (kWh)'') w3))
         else w3)"

text \<open>
  The last lines of \<open>capture_and_process\<close>, which write the table. An exception of \<open>open\<close>
  is not caught: it leaves \<open>capture_and_process\<close>.
\<close>

definition save_readings :: "reading_record list \<Rightarrow> world \<Rightarrow> error option \<times> world" where
  "save_readings readings w =
     (if readings \<noteq> []
      then let mode = (if path_exists w csv_path then CHR ''a'' else CHR ''w'')
           in (case open_error w csv_path of
                 Some e \<Rightarrow> (Some e, w)
               | None \<Rightarrow>
                   let f = open_text csv_path mode w;
                       f = (if mode = CHR ''w'' then f @ csv_header else f);
                       f = fold (\<lambda>r f. f @ csv_row r) readings f
                   in (None, print (nl @ ''Readings saved to: '' @ csv_path) (write_file csv_path f w)))
      else (None, w))"

definition capture_and_process ::
  "cv2 \<Rightarrow> env \<Rightarrow> string \<Rightarrow> roi \<Rightarrow> int \<Rightarrow> pyfloat \<Rightarrow> world \<Rightarrow> (error + reading_record list) \<times> world" where
  "capture_and_process cv ev url roi capture_count interval w =
     (let w1 = print (''Starting to capture '' @ str_int capture_count @ '' meter readings at ''
                        @ str_float ev interval @ ''s intervals'') w;
          w2 = print (replicate 60 (CHR ''='')) w1
      in case capture_loop cv ev url roi capture_count interval (py_range capture_count) [] w2 of
           (Inl e, w3) \<Rightarrow> (Inl e, w3)
         | (Inr readings, w3) \<Rightarrow>
             (case save_readings readings (print_summary readings capture_count w3) of
                (Some e, w4) \<Rightarrow> (Inl e, w4)
              | (None, w4) \<Rightarrow> (Inr readings, w4)))"

section \<open>The command line\<close>

record args =
  arg_url :: string
  arg_roi :: string
  arg_count :: int
  arg_interval :: pyfloat
  arg_image :: "string option"

text \<open>
  \<open>tuple(map(int, s.split(',')))\<close>: the integers of the pieces, or \<open>None\<close> where \<open>int\<close>
  raises \<open>ValueError\<close> on one of them.
\<close>

fun all_some :: "'a option list \<Rightarrow> 'a list option" where
  "all_some [] = Some []"
| "all_some (None # xs) = None"
| "all_some (Some x # xs) = (case all_some xs of None \<Rightarrow> None | Some ys \<Rightarrow> Some (x # ys))"

definition parse_ints :: "env \<Rightarrow> string \<Rightarrow> int list option" where
  "parse_ints ev s = all_some (map (py_int ev) (split_sep (CHR '','') s))"

definition main :: "cv2 \<Rightarrow> env \<Rightarrow> args \<Rightarrow> world \<Rightarrow> int \<times> world" where
  "main cv ev a w =
     (case parse_ints ev (arg_roi a) of
        None \<Rightarrow> (1, print ''Error: ROI must be four integers separated by commas'' w)
      | Some vs \<Rightarrow>
          (case vs of
             [x, y, width, height] \<Rightarrow>
               let roi = (x, y, width, height);
                   captured =
                     (case capture_and_process cv ev (arg_url a) roi (arg_count a) (arg_interval a) w of
                        (Inl e, w') \<Rightarrow> (1, print (''Error: '' @ str_error e) w')
                      | (Inr readings, w') \<Rightarrow> (0, w'))
               in
               (case arg_image a of
                  None \<Rightarrow> captured
                | Some p \<Rightarrow>
                    if p = [] then captured
                    else if \<not> path_exists w p
                    then (1, print (''Error: Image file not found: '' @ p) w)
                    else (case process_meter_image cv p roi w of
                            (Inl e, w') \<Rightarrow> (1, print (''Error: '' @ str_error e) w')
                          | (Inr reading, w') \<Rightarrow> (0, w')))
           | _ \<Rightarrow> (1, print ''Error: ROI must have exactly 4 values (x,y,width,height)'' w)))"

section \<open>A sample library and sample surroundings\<close>

text \<open>
  Concrete inputs on which the theorems below are exercised. The sample library converts
  colours trivially (grey is the green channel), leaves an array unchanged where OpenCV
  equalises, blurs or normalises it, and always detects the same four square contours, of
  areas 10 000, 100, 900 and 9; the area of a contour is computed by the shoelace formula
  and its bounding rectangle from the extreme coordinates. Its drawing calls leave the
  image as it is, and raise when a coordinate does not fit a 32-bit integer. It decodes one
  file content, \<open>PIC\<close>, into a 2 by 3 image.
\<close>

definition c_int :: "int \<Rightarrow> bool" where
  "c_int v \<longleftrightarrow> - 2147483648 \<le> v \<and> v \<le> 2147483647"

definition c_point :: "int \<times> int \<Rightarrow> bool" where
  "c_point p \<longleftrightarrow> c_int (fst p) \<and> c_int (snd p)"

definition sample_image :: "px3 ndarray" where
  "sample_image =
     \<lparr>nrows = 2, ncols = 3,
      pixels = [[(0, 200, 0), (0, 100, 0), (0, 161, 0)], [(0, 160, 0), (0, 255, 0), (0, 0, 0)]]\<rparr>"

fun shoelace :: "contour \<Rightarrow> int" where
  "shoelace ((x0, y0) # (x1, y1) # ps) = x0 * y1 - x1 * y0 + shoelace ((x1, y1) # ps)"
| "shoelace ps = 0"

definition sample_area :: "contour \<Rightarrow> real" where
  "sample_area c = (case c of [] \<Rightarrow> 0 | p # ps \<Rightarrow> \<bar>real_of_int (shoelace (c @ [p]))\<bar> / 2)"

definition sample_rect :: "contour \<Rightarrow> int \<times> int \<times> int \<times> int" where
  "sample_rect c =
     (case c of
        [] \<Rightarrow> (0, 0, 0, 0)
      | p # ps \<Rightarrow>
          let x0 = fold min (map fst ps) (fst p); x1 = fold max (map fst ps) (fst p);
              y0 = fold min (map snd ps) (snd p); y1 = fold max (map snd ps) (snd p)
          in (x0, y0, x1 - x0 + 1, y1 - y0 + 1))"

definition square :: "int \<Rightarrow> int \<Rightarrow> int \<Rightarrow> contour" where
  "square x y a = [(x, y), (x, y + a), (x + a, y + a), (x + a, y)]"

definition sample_contours :: "contour list" where
  "sample_contours = [square 50 0 100, square 40 5 10, square 7 3 30, square 1 1 3]"

definition sample_cv :: cv2 where
  "sample_cv =
     \<lparr>bgr2lab = (\<lambda>p. p), lab2bgr = (\<lambda>p. p), bgr2gray = (\<lambda>p. fst (snd p)),
      clahe_apply = (\<lambda>m. m), GaussianBlur = (\<lambda>m. m), normalize_minmax = (\<lambda>m. m),
      findContours = (\<lambda>m. sample_contours),
      contourArea = sample_area, boundingRect = sample_rect,
      rectangle = (\<lambda>img p q colour thickness.
                     if c_point p \<and> c_point q then Inr img
                     else Inl (CvError ''Overload resolution failed in function rectangle'')),
      drawContours = (\<lambda>img cs idx colour thickness. Inr img),
      putText = (\<lambda>img s org colour thickness.
                   if c_point org then Inr img
                   else Inl (CvError ''Overload resolution failed in function putText'')),
      imdecode = (\<lambda>data. if data = ''PIC'' then Some sample_image else None),
      imencode = (\<lambda>img. ''JPG'')\<rparr>"

text \<open>
  The sample surroundings answer the second HTTP request with status 500 and every other
  one with the picture; the clock shows its reading number; \<open>time.sleep\<close> accepts the
  finite durations from 0 to 9223372036 seconds; \<open>int\<close> reads one decimal digit.
\<close>

definition sample_sleep :: "pyfloat \<Rightarrow> error option" where
  "sample_sleep secs =
     (case secs of
        NaN \<Rightarrow> Some (ValueError ''Invalid value NaN (not a number)'')
      | PosInf \<Rightarrow> Some (OverflowError ''timestamp too large to convert to C _PyTime_t'')
      | NegInf \<Rightarrow> Some (OverflowError ''timestamp too large to convert to C _PyTime_t'')
      | Finite r \<Rightarrow>
          if r < - 9223372036 \<or> 9223372036 < r
          then Some (OverflowError ''timestamp too large to convert to C _PyTime_t'')
          else if r < 0 then Some (ValueError ''sleep length must be non-negative'')
          else None)"

definition sample_env :: env where
  "sample_env =
     \<lparr>http_get = (\<lambda>n url. if n = 1 then Response 500 [] else Response 200 ''PIC''),
      strftime_now = (\<lambda>n fmt. str_nat n),
      time_sleep = sample_sleep,
      str_float = (\<lambda>r. ''1.0''),
      py_int = (\<lambda>s. case s of [c] \<Rightarrow> (if c \<in> set ''0123456789''
                                       then Some (int (length (takeWhile (\<lambda>d. d \<noteq> c) ''0123456789'')))
                                       else None)
                          | _ \<Rightarrow> None)\<rparr>"

text \<open>Surroundings in which every download fails, and ones in which every download succeeds.\<close>

definition offline_env :: env where
  "offline_env = sample_env\<lparr>http_get := (\<lambda>n url. RequestFailed ''Connection refused'')\<rparr>"

definition online_env :: env where
  "online_env = sample_env\<lparr>http_get := (\<lambda>n url. Response 200 ''PIC'')\<rparr>"

definition empty_world :: world where
  "empty_world = \<lparr>files = Map.empty, dirs = {}, trace = [], http_calls = 0, clock_reads = 0\<rparr>"

text \<open>A world that holds one picture file and nothing else.\<close>

definition sample_world :: world where
  "sample_world = empty_world\<lparr>files := [''shot.jpg'' \<mapsto> ''PIC'']\<rparr>"

text \<open>The pauses of a run, in order.\<close>

fun is_sleep :: "event \<Rightarrow> bool" where
  "is_sleep (Sleep secs) = True"
| "is_sleep e = False"

definition sleeps :: "world \<Rightarrow> event list" where
  "sleeps w = filter is_sleep (trace w)"

text \<open>
  The request of a download fails when it raises or answers with a status other than 200;
  the download then fails.
\<close>

fun download_failed :: "http_result \<Rightarrow> bool" where
  "download_failed (RequestFailed m) = True"
| "download_failed (Response status_code body) = (status_code \<noteq> 200)"

text \<open>The world once the two opening lines of a session are printed.\<close>

definition session_start :: "env \<Rightarrow> int \<Rightarrow> pyfloat \<Rightarrow> world \<Rightarrow> world" where
  "session_start ev capture_count interval w =
     print (replicate 60 (CHR ''=''))
       (print (''Starting to capture '' @ str_int capture_count @ '' meter readings at ''
                 @ str_float ev interval @ ''s intervals'') w)"

text \<open>A world in which the table of readings already holds one row.\<close>

definition logged_world :: world where
  "logged_world = empty_world\<lparr>files := [csv_path \<mapsto> csv_header @ ''2024-01-01 00:00:00,16737'' @ nl]\<rparr>"


section \<open>What happens in a capture\<close>

text \<open>
  The drawing calls of \<open>process_meter_image\<close> accept an image and a region: the rectangle
  and the caption on the whole image, and the contours, whichever are found, on the crop.
\<close>

definition drawing_accepts :: "cv2 \<Rightarrow> px3 ndarray \<Rightarrow> roi \<Rightarrow> bool" where
  "drawing_accepts cv img roi =
     (case roi of (x, y, w, h) \<Rightarrow>
        (\<exists>boxed. rectangle cv img (x, y) (x + w, y + h) (0, 255, 0) 2 = Inr boxed
            \<and> \<not> isl (putText cv boxed ''Reading: 16737 kWh'' (x, y - 10) (0, 255, 0) 2))
      \<and> (\<forall>cs. \<not> isl (drawContours cv (roi_crop img roi) cs (- 1) (0, 255, 0) 2)))"

text \<open>
  What one attempt of a session comes to, started in a given world: the Image Source
  fails (\<open>download_image\<close> returns no path), the processing raises, or a reading is
  captured.
\<close>

datatype outcome = DownloadFailed | ProcessingFailed error | Captured string

definition capture_outcome :: "cv2 \<Rightarrow> env \<Rightarrow> string \<Rightarrow> roi \<Rightarrow> world \<Rightarrow> outcome" where
  "capture_outcome cv ev url roi w =
     (case download_image ev url ''meter_images'' w of
        (image_path, w1) \<Rightarrow>
          (case image_path of
             None \<Rightarrow> DownloadFailed
           | Some p \<Rightarrow>
               if p = [] then DownloadFailed
               else (case process_meter_image cv p roi w1 of
                       (Inl e, w2) \<Rightarrow> ProcessingFailed e
                     | (Inr reading, w2) \<Rightarrow> Captured reading)))"

text \<open>
  What attempt number \<open>k + 1\<close> of a session comes to: the session runs its first \<open>k\<close>
  iterations, and the attempt is made in the world they leave. There is no such attempt
  (\<open>None\<close>) when the session has fewer iterations or an exception ends it earlier.
\<close>

definition attempt_outcome ::
  "cv2 \<Rightarrow> env \<Rightarrow> string \<Rightarrow> roi \<Rightarrow> int \<Rightarrow> pyfloat \<Rightarrow> world \<Rightarrow> nat \<Rightarrow> outcome option" where
  "attempt_outcome cv ev url roi capture_count interval w k =
     (if int k < capture_count
      then (case capture_loop cv ev url roi capture_count interval (take k (py_range capture_count)) []
                   (session_start ev capture_count interval w) of
              (Inl e, wk) \<Rightarrow> None
            | (Inr readings, wk) \<Rightarrow> Some (capture_outcome cv ev url roi wk))
      else None)"

section \<open>The region extractor\<close>

lemma slice_len_inside:
  assumes "0 \<le> lo" and "0 \<le> k" and "lo + k \<le> int n"
  shows "int (slice_len lo (lo + k) n) = k"
  using assms unfolding slice_len_def slice_bound_def by auto

lemma length_py_slice: "length (py_slice lo hi xs) = slice_len lo hi (length xs)"
  by (simp add: py_slice_def slice_len_def slice_bound_def)

lemma wf_roi_crop:
  assumes "wf_image img"
  shows "wf_image (roi_crop img (x, y, w, h))"
proof -
  have rows: "length (py_slice y (y + h) (pixels img)) = slice_len y (y + h) (nrows img)"
    using assms by (simp add: length_py_slice wf_image_def)
  have "set (py_slice y (y + h) (pixels img)) \<subseteq> set (pixels img)"
    unfolding py_slice_def by (meson set_take_subset set_drop_subset subset_trans)
  then have "\<forall>r \<in> set (py_slice y (y + h) (pixels img)). length r = ncols img"
    using assms by (auto simp: wf_image_def list_all_iff)
  then show ?thesis
    using rows by (simp add: wf_image_def list_all_iff length_py_slice)
qed

text \<open>
  Claim C8, as amended. For an image (an array whose stored rows agree with its shape,
  \<open>wf_image\<close>) and a region \<open>(x, y, width, height)\<close> with
  \<open>0 \<le> x\<close>, \<open>0 \<le> y\<close>, \<open>0 \<le> width\<close>, \<open>0 \<le> height\<close>, \<open>x + width \<le> image_width\<close> and
  \<open>y + height \<le> image_height\<close>, the cropped sub-image has exactly \<open>width\<close> columns and
  \<open>height\<close> rows: its shape says so, it holds \<open>height\<close> rows of elements, and each of
  them has \<open>width\<close> elements.
\<close>

theorem roi_crop_dimensions:
  assumes "wf_image img"
    and "0 \<le> x" and "0 \<le> y" and "0 \<le> w" and "0 \<le> h"
    and "x + w \<le> int (ncols img)" and "y + h \<le> int (nrows img)"
  shows "int (ncols (roi_crop img (x, y, w, h))) = w
       \<and> int (nrows (roi_crop img (x, y, w, h))) = h
       \<and> int (length (pixels (roi_crop img (x, y, w, h)))) = h
       \<and> (\<forall>r \<in> set (pixels (roi_crop img (x, y, w, h))). int (length r) = w)"
proof -
  let ?c = "roi_crop img (x, y, w, h)"
  have c: "int (ncols ?c) = w" using assms by (simp add: slice_len_inside)
  have r: "int (nrows ?c) = h" using assms by (simp add: slice_len_inside)
  have "wf_image ?c" using assms(1) by (rule wf_roi_crop)
  then have "length (pixels ?c) = nrows ?c" and "\<forall>r \<in> set (pixels ?c). length r = ncols ?c"
    by (simp_all add: wf_image_def list_all_iff)
  with c r show ?thesis by metis
qed

theorem roi_crop_dimensions_witness:
  "wf_image sample_image \<and> (0::int) \<le> 1 \<and> (0::int) \<le> 0 \<and> (0::int) \<le> 2
   \<and> 1 + 2 \<le> int (ncols sample_image) \<and> 0 + 2 \<le> int (nrows sample_image)
   \<and> int (ncols (roi_crop sample_image (1, 0, 2, 2))) = 2
   \<and> int (nrows (roi_crop sample_image (1, 0, 2, 2))) = 2
   \<and> pixels (roi_crop sample_image (1, 0, 2, 2))
       = [[(0, 100, 0), (0, 161, 0)], [(0, 255, 0), (0, 0, 0)]]"
  using roi_crop_dimensions [of sample_image 1 0 2 2]
  by (simp add: sample_image_def wf_image_def py_slice_def slice_len_def slice_bound_def)

text \<open>
  Claim C8 as first stated asks nothing of the sign of \<open>width\<close> and \<open>height\<close>. The region
  \<open>(2, 1, -1, -1)\<close> satisfies \<open>0 \<le> x\<close>, \<open>0 \<le> y\<close>, \<open>x + width \<le> 3\<close> and \<open>y + height \<le> 2\<close>
  on the 2 by 3 sample image, and its crop has no row and no column, not -1 of each.
\<close>

theorem roi_crop_negative_size_counterexample:
  "wf_image sample_image \<and> (0::int) \<le> 2 \<and> (0::int) \<le> 1
   \<and> 2 + (- 1) \<le> int (ncols sample_image) \<and> 1 + (- 1) \<le> int (nrows sample_image)
   \<and> int (ncols (roi_crop sample_image (2, 1, - 1, - 1))) \<noteq> - 1
   \<and> int (nrows (roi_crop sample_image (2, 1, - 1, - 1))) \<noteq> - 1
   \<and> roi_crop sample_image (2, 1, - 1, - 1) = \<lparr>nrows = 0, ncols = 0, pixels = []\<rparr>"
  by (simp add: sample_image_def wf_image_def py_slice_def slice_len_def slice_bound_def)

section \<open>The contour extractor\<close>

lemma sample_area_square: "sample_area (square x y a) = \<bar>real_of_int (2 * a * a)\<bar> / 2"
  by (simp add: sample_area_def square_def algebra_simps)

text \<open>
  Claim C2. For every binary mask, \<open>extract_digit_regions\<close> returns exactly the detected
  contours whose area is strictly greater than 50 and strictly less than 2000, each as
  often as it was detected, and returns them in ascending order of the x-coordinate of
  their bounding rectangle.
\<close>

theorem extract_digit_regions_filtered_sorted:
  "mset (extract_digit_regions cv binary_image)
     = filter_mset (\<lambda>cnt. 50 < contourArea cv cnt \<and> contourArea cv cnt < 2000)
         (mset (findContours cv binary_image))
   \<and> sorted (map (\<lambda>cnt. fst (boundingRect cv cnt)) (extract_digit_regions cv binary_image))"
  by (simp add: extract_digit_regions_def min_area_def max_area_def)

theorem extract_digit_regions_witness:
  "extract_digit_regions sample_cv (map_image fst sample_image) = [square 7 3 30, square 40 5 10]
   \<and> mset (extract_digit_regions sample_cv (map_image fst sample_image))
     = filter_mset (\<lambda>cnt. 50 < contourArea sample_cv cnt \<and> contourArea sample_cv cnt < 2000)
         (mset (findContours sample_cv (map_image fst sample_image)))
   \<and> sorted (map (\<lambda>cnt. fst (boundingRect sample_cv cnt))
               (extract_digit_regions sample_cv (map_image fst sample_image)))"
  using extract_digit_regions_filtered_sorted [of sample_cv "map_image fst sample_image"]
  by (simp add: extract_digit_regions_def min_area_def max_area_def sample_cv_def
        sample_contours_def sample_area_square)
    (simp add: square_def sample_rect_def)

section \<open>The binarizer\<close>

lemma cvtColor_nonempty: "\<not> is_empty src \<Longrightarrow> cvtColor code src = Inr (map_image code src)"
  by (simp add: cvtColor_def)

lemma same_shape_map_image: "same_shape (map_image f m) m"
  by (simp add: same_shape_def map_image_def)

lemma wf_map_image: "wf_image m \<Longrightarrow> wf_image (map_image f m)"
  by (simp add: wf_image_def map_image_def list_all_iff)

lemma is_empty_same_shape: "same_shape a b \<Longrightarrow> is_empty a = is_empty b"
  by (simp add: same_shape_def is_empty_def)

lemma array_preservingD:
  assumes "array_preserving f" and "wf_image m"
  shows "wf_image (f m)" and "nrows (f m) = nrows m" and "ncols (f m) = ncols m"
  using assms by (simp_all add: array_preserving_def same_shape_def)

lemma threshold_values:
  assumes "row \<in> set (pixels (threshold src t maxval))" and "v \<in> set row"
  shows "v = 0 \<or> v = maxval"
  using assms by (auto simp: threshold_def map_image_def)

lemma preprocess_nonempty:
  "\<not> is_empty img \<Longrightarrow>
   preprocess_lcd_image cv img
     = Inr (threshold (normalize_minmax cv (GaussianBlur cv (map_image (bgr2gray cv) img))) 160 255)"
  by (simp add: preprocess_lcd_image_def cvtColor_nonempty)

lemma preprocess_empty: "is_empty img \<Longrightarrow> isl (preprocess_lcd_image cv img)"
  by (simp add: preprocess_lcd_image_def cvtColor_def)

text \<open>
  Claim C7. Given that OpenCV's blur and normalisation return, from an array whose rows
  agree with its shape, such an array of the same shape: for every colour image that is
  not empty \<open>preprocess_lcd_image\<close> produces a mask, and every mask it produces is a
  one-byte-per-element array of the height and width of the image (its shape says so, it
  holds that many rows, and every row holds that many elements) whose elements are all 0
  or 255: an element is 255 where the normalised grey value is above 160, and 0 elsewhere.
\<close>

theorem preprocess_lcd_image_binary:
  assumes blur: "array_preserving (GaussianBlur cv)"
    and norm: "array_preserving (normalize_minmax cv)"
    and wf: "wf_image img"
  shows "(\<not> is_empty img \<longrightarrow> (\<exists>mask. preprocess_lcd_image cv img = Inr mask))
       \<and> (\<forall>mask. preprocess_lcd_image cv img = Inr mask \<longrightarrow>
            wf_image mask
          \<and> nrows mask = nrows img \<and> ncols mask = ncols img
          \<and> length (pixels mask) = nrows img
          \<and> (\<forall>row \<in> set (pixels mask).
                length row = ncols img \<and> (\<forall>v \<in> set row. v = 0 \<or> v = 255))
          \<and> pixels mask
              = map (map (\<lambda>v. if 160 < v then 255 else 0))
                  (pixels (normalize_minmax cv (GaussianBlur cv (map_image (bgr2gray cv) img)))))"
proof (cases "is_empty img")
  case True
  then have "isl (preprocess_lcd_image cv img)" by (rule preprocess_empty)
  with True show ?thesis by auto
next
  case False
  let ?gray = "map_image (bgr2gray cv) img"
  let ?norm = "normalize_minmax cv (GaussianBlur cv ?gray)"
  let ?mask = "threshold ?norm 160 255"
  have eq: "preprocess_lcd_image cv img = Inr ?mask"
    using False by (rule preprocess_nonempty)
  have g: "wf_image ?gray" "nrows ?gray = nrows img" "ncols ?gray = ncols img"
    using wf by (simp_all add: wf_map_image) (simp_all add: map_image_def)
  note b = array_preservingD [OF blur g(1)]
  note n = array_preservingD [OF norm b(1)]
  have m: "wf_image ?mask" "nrows ?mask = nrows img" "ncols ?mask = ncols img"
    using n b g by (simp_all add: threshold_def wf_map_image) (simp_all add: map_image_def)
  then have rows: "length (pixels ?mask) = nrows img"
    and cols: "\<forall>row \<in> set (pixels ?mask). length row = ncols img"
    by (simp_all add: wf_image_def list_all_iff)
  have vals: "\<forall>row \<in> set (pixels ?mask). \<forall>v \<in> set row. v = 0 \<or> v = 255"
    using threshold_values by blast
  have px: "pixels ?mask = map (map (\<lambda>v. if 160 < v then 255 else 0)) (pixels ?norm)"
    by (simp add: threshold_def map_image_def)
  from eq m rows cols vals px show ?thesis by simp
qed

theorem preprocess_lcd_image_witness:
  "array_preserving (GaussianBlur sample_cv) \<and> array_preserving (normalize_minmax sample_cv)
   \<and> wf_image sample_image \<and> \<not> is_empty sample_image
   \<and> preprocess_lcd_image sample_cv sample_image
       = Inr \<lparr>nrows = 2, ncols = 3, pixels = [[255, 0, 255], [0, 255, 0]]\<rparr>
   \<and> wf_image \<lparr>nrows = 2, ncols = 3, pixels = [[255, 0, 255], [0, 255, 0 :: byte]]\<rparr>"
  using preprocess_lcd_image_binary [of sample_cv sample_image]
  by (simp add: sample_cv_def sample_image_def array_preserving_def same_shape_def is_empty_def
        wf_image_def preprocess_lcd_image_def cvtColor_def threshold_def map_image_def)

section \<open>The constant reading\<close>

lemma enhance_nonempty:
  assumes "shape_preserving (clahe_apply cv)" and "\<not> is_empty img"
  shows "\<exists>enh. enhance_lcd_image cv img = Inr enh \<and> same_shape enh img"
  using assms
  by (auto simp: enhance_lcd_image_def cvtColor_def split3_def merge3_def shape_preserving_def
      same_shape_def is_empty_def map_image_def Let_def)

lemma enhance_empty: "is_empty img \<Longrightarrow> isl (enhance_lcd_image cv img)"
  by (simp add: enhance_lcd_image_def cvtColor_def)

lemma process_meter_image_result:
  "fst (process_meter_image cv image_path (x, y, w, h) wd) =
     (case (case files wd image_path of None \<Rightarrow> None | Some data \<Rightarrow> imdecode cv data) of
        None \<Rightarrow> Inl (ValueError (''Could not read image: '' @ image_path))
      | Some img \<Rightarrow>
          (case enhance_lcd_image cv (roi_crop img (x, y, w, h)) of
             Inl e \<Rightarrow> Inl e
           | Inr enhanced \<Rightarrow>
               (case preprocess_lcd_image cv enhanced of
                  Inl e \<Rightarrow> Inl e
                | Inr processed \<Rightarrow>
                    (case rectangle cv img (x, y) (x + w, y + h) (0, 255, 0) 2 of
                       Inl e \<Rightarrow> Inl e
                     | Inr boxed \<Rightarrow>
                         (case drawContours cv (roi_crop img (x, y, w, h))
                                 (extract_digit_regions cv processed) (- 1) (0, 255, 0) 2 of
                            Inl e \<Rightarrow> Inl e
                          | Inr outlined \<Rightarrow>
                              (case putText cv boxed ''Reading: 16737 kWh'' (x, y - 10) (0, 255, 0) 2 of
                                 Inl e \<Rightarrow> Inl e
                               | Inr captioned \<Rightarrow> Inr ''16737''))))))"
  by (simp add: imread_def Let_def split: option.splits sum.splits)

lemma process_meter_image_ok:
  assumes f: "files wd p = Some data" and d: "imdecode cv data = Some img"
    and ne: "\<not> is_empty (roi_crop img roi)" and sp: "shape_preserving (clahe_apply cv)"
    and dr: "drawing_accepts cv img roi"
  shows "fst (process_meter_image cv p roi wd) = Inr ''16737''"
proof -
  obtain x y w h where roi: "roi = (x, y, w, h)" by (cases roi) auto
  obtain enh where enh: "enhance_lcd_image cv (roi_crop img roi) = Inr enh"
    "same_shape enh (roi_crop img roi)"
    using enhance_nonempty [OF sp ne] by blast
  then have "\<not> is_empty enh" using ne by (simp add: is_empty_same_shape)
  then obtain processed where pre: "preprocess_lcd_image cv enh = Inr processed"
    by (simp add: preprocess_nonempty)
  from dr obtain boxed where box: "rectangle cv img (x, y) (x + w, y + h) (0, 255, 0) 2 = Inr boxed"
    and cap: "\<not> isl (putText cv boxed ''Reading: 16737 kWh'' (x, y - 10) (0, 255, 0) 2)"
    and con: "\<not> isl (drawContours cv (roi_crop img (x, y, w, h))
                       (extract_digit_regions cv processed) (- 1) (0, 255, 0) 2)"
    unfolding drawing_accepts_def roi by auto
  from con obtain outlined where
    "drawContours cv (roi_crop img (x, y, w, h))
       (extract_digit_regions cv processed) (- 1) (0, 255, 0) 2 = Inr outlined"
    by (auto simp: isl_def split: sum.splits) (metis sum.exhaust)
  moreover from cap obtain captioned where
    "putText cv boxed ''Reading: 16737 kWh'' (x, y - 10) (0, 255, 0) 2 = Inr captioned"
    by (auto simp: isl_def) (metis sum.exhaust)
  ultimately show ?thesis
    using f d enh(1) pre box unfolding roi process_meter_image_result
    by (simp add: roi [symmetric])
qed

text \<open>
  Claim C1, as amended. Whatever the image, the region and the contours found, a reading
  that \<open>process_meter_image\<close> returns is the constant \<open>16737\<close>. It returns that reading for
  every decodable image and every region on which no OpenCV call raises: the crop of the
  image by the region is not empty, and the drawing calls accept the corners of the region
  (CLAHE returning an array of its input's shape). For a region whose crop is empty it
  raises an error and returns no reading, and so it does for a region that the drawing of
  the rectangle rejects.
\<close>

theorem process_meter_image_reading:
  "(\<forall>reading wd'. process_meter_image cv image_path roi wd = (Inr reading, wd') \<longrightarrow>
      reading = ''16737'')
   \<and> (\<forall>data img. files wd image_path = Some data \<and> imdecode cv data = Some img
         \<and> \<not> is_empty (roi_crop img roi) \<and> shape_preserving (clahe_apply cv)
         \<and> drawing_accepts cv img roi \<longrightarrow>
       fst (process_meter_image cv image_path roi wd) = Inr ''16737'')
   \<and> (\<forall>data img. files wd image_path = Some data \<and> imdecode cv data = Some img
         \<and> is_empty (roi_crop img roi) \<longrightarrow>
       isl (fst (process_meter_image cv image_path roi wd)))
   \<and> (\<forall>data img. files wd image_path = Some data \<and> imdecode cv data = Some img
         \<and> (case roi of (x, y, w, h) \<Rightarrow>
               isl (rectangle cv img (x, y) (x + w, y + h) (0, 255, 0) 2)) \<longrightarrow>
       isl (fst (process_meter_image cv image_path roi wd)))"
proof -
  obtain x y w h where roi: "roi = (x, y, w, h)" by (cases roi) auto
  have a: "reading = ''16737''" if "process_meter_image cv image_path roi wd = (Inr reading, wd')"
    for reading wd'
  proof -
    from that have "fst (process_meter_image cv image_path (x, y, w, h) wd) = Inr reading"
      by (simp add: roi)
    then show ?thesis
      unfolding process_meter_image_result by (auto split: option.splits sum.splits)
  qed
  have b: "fst (process_meter_image cv image_path roi wd) = Inr ''16737''"
    if "files wd image_path = Some data" and "imdecode cv data = Some img"
      and "\<not> is_empty (roi_crop img roi)" and "shape_preserving (clahe_apply cv)"
      and "drawing_accepts cv img roi"
    for data img
    using that by (rule process_meter_image_ok)
  have c: "isl (fst (process_meter_image cv image_path roi wd))"
    if "files wd image_path = Some data" and "imdecode cv data = Some img"
      and "is_empty (roi_crop img roi)" for data img
    using that enhance_empty [OF that(3), of cv] unfolding roi process_meter_image_result
    by (auto split: sum.splits)
  have d: "isl (fst (process_meter_image cv image_path roi wd))"
    if "files wd image_path = Some data" and "imdecode cv data = Some img"
      and "case roi of (x, y, w, h) \<Rightarrow>
             isl (rectangle cv img (x, y) (x + w, y + h) (0, 255, 0) 2)"
    for data img
    using that unfolding roi process_meter_image_result
    by (auto split: sum.splits)
  from a b c d show ?thesis by blast
qed

theorem process_meter_image_witness:
  "files sample_world ''shot.jpg'' = Some ''PIC'' \<and> imdecode sample_cv ''PIC'' = Some sample_image
   \<and> \<not> is_empty (roi_crop sample_image (1, 0, 2, 1)) \<and> shape_preserving (clahe_apply sample_cv)
   \<and> drawing_accepts sample_cv sample_image (1, 0, 2, 1)
   \<and> fst (process_meter_image sample_cv ''shot.jpg'' (1, 0, 2, 1) sample_world) = Inr ''16737''
   \<and> isl (rectangle sample_cv sample_image (0, 0) (0 + 2147483648, 0 + 1) (0, 255, 0) 2)
   \<and> isl (fst (process_meter_image sample_cv ''shot.jpg'' (0, 0, 2147483648, 1) sample_world))"
proof -
  have hyps: "files sample_world ''shot.jpg'' = Some ''PIC'' \<and> imdecode sample_cv ''PIC'' = Some sample_image
      \<and> \<not> is_empty (roi_crop sample_image (1, 0, 2, 1)) \<and> shape_preserving (clahe_apply sample_cv)"
    by (simp add: sample_world_def empty_world_def sample_cv_def sample_image_def is_empty_def
        shape_preserving_def same_shape_def slice_len_def slice_bound_def)
  have dr: "drawing_accepts sample_cv sample_image (1, 0, 2, 1)"
    by (simp add: drawing_accepts_def sample_cv_def c_point_def c_int_def)
  have rej: "isl (rectangle sample_cv sample_image (0, 0) (0 + 2147483648, 0 + 1) (0, 255, 0) 2)"
    by (simp add: sample_cv_def c_point_def c_int_def)
  from hyps dr process_meter_image_reading [of sample_cv "''shot.jpg''" "(1, 0, 2, 1)" sample_world]
  have ok: "fst (process_meter_image sample_cv ''shot.jpg'' (1, 0, 2, 1) sample_world) = Inr ''16737''"
    by blast
  from hyps rej
    process_meter_image_reading [of sample_cv "''shot.jpg''" "(0, 0, 2147483648, 1)" sample_world]
  have "isl (fst (process_meter_image sample_cv ''shot.jpg'' (0, 0, 2147483648, 1) sample_world))"
    by simp
  with hyps dr rej ok show ?thesis by simp
qed

text \<open>
  Claim C1 as first stated fails for a region that lies outside the image: the default
  region \<open>(187, 188, 275, 146)\<close> on the decodable 2 by 3 sample image crops to an empty
  array, the colour conversion rejects it, and no reading is returned.
\<close>

theorem process_meter_image_empty_crop_counterexample:
  "files sample_world ''shot.jpg'' = Some ''PIC'' \<and> imdecode sample_cv ''PIC'' = Some sample_image
   \<and> fst (process_meter_image sample_cv ''shot.jpg'' DEFAULT_ROI sample_world) \<noteq> Inr ''16737''
   \<and> isl (fst (process_meter_image sample_cv ''shot.jpg'' DEFAULT_ROI sample_world))"
  unfolding DEFAULT_ROI_def process_meter_image_result
  by (simp add: sample_world_def empty_world_def sample_cv_def sample_image_def
      enhance_lcd_image_def cvtColor_def is_empty_def slice_len_def slice_bound_def)

section \<open>Malformed regions on the command line\<close>

lemma all_some_map_Some: "all_some (map Some vs) = Some vs"
  by (induction vs) auto

lemma all_some_SomeD: "all_some xs = Some vs \<Longrightarrow> xs = map Some vs"
proof (induction xs arbitrary: vs rule: all_some.induct)
  case 1
  then show ?case by simp
next
  case (2 xs)
  then show ?case by simp
next
  case (3 x xs)
  then show ?case by (auto split: option.splits)
qed

lemma all_some_eq_Some: "all_some xs = Some vs \<longleftrightarrow> xs = map Some vs"
  using all_some_SomeD all_some_map_Some by blast

text \<open>
  Claim C6. For every region argument that does not parse to exactly four comma-separated
  integers, \<open>main\<close> returns exit code 1 and attempts no capture: all it does is print one
  message; no file or directory is touched, no HTTP request is made, no image is read and
  the clock is not consulted.
\<close>

theorem main_malformed_roi:
  assumes bad: "\<not> (\<exists>x y width height.
            map (py_int ev) (split_sep (CHR '','') (arg_roi a)) = [Some x, Some y, Some width, Some height])"
  shows "fst (main cv ev a w) = 1
       \<and> (\<exists>msg. snd (main cv ev a w) = print msg w \<and> trace (snd (main cv ev a w)) = trace w @ [Print msg])
       \<and> files (snd (main cv ev a w)) = files w
       \<and> dirs (snd (main cv ev a w)) = dirs w
       \<and> http_calls (snd (main cv ev a w)) = http_calls w
       \<and> clock_reads (snd (main cv ev a w)) = clock_reads w"
proof (cases "parse_ints ev (arg_roi a)")
  case None
  then show ?thesis by (simp add: main_def print_def emit_def)
next
  case (Some vs)
  then have "map (py_int ev) (split_sep (CHR '','') (arg_roi a)) = map Some vs"
    by (simp add: parse_ints_def all_some_eq_Some)
  with bad have "\<not> (\<exists>x y width height. vs = [x, y, width, height])" by auto
  then have "main cv ev a w
      = (1, print ''Error: ROI must have exactly 4 values (x,y,width,height)'' w)"
    using Some by (auto simp: main_def split: list.splits)
  then show ?thesis by (simp add: print_def emit_def)
qed

theorem main_malformed_roi_witness:
  "map (py_int sample_env) (split_sep (CHR '','') ''1,2,3'') = [Some 1, Some 2, Some 3]
   \<and> fst (main sample_cv sample_env
        \<lparr>arg_url = ''http://cam'', arg_roi = ''1,2,3'', arg_count = 1, arg_interval = Finite 1,
         arg_image = None\<rparr> empty_world) = 1
   \<and> trace (snd (main sample_cv sample_env
        \<lparr>arg_url = ''http://cam'', arg_roi = ''1,2,3'', arg_count = 1, arg_interval = Finite 1,
         arg_image = None\<rparr> empty_world))
      = [Print ''Error: ROI must have exactly 4 values (x,y,width,height)'']
   \<and> http_calls (snd (main sample_cv sample_env
        \<lparr>arg_url = ''http://cam'', arg_roi = ''1,2,3'', arg_count = 1, arg_interval = Finite 1,
         arg_image = None\<rparr> empty_world)) = 0"
proof -
  let ?a = "\<lparr>arg_url = ''http://cam'', arg_roi = ''1,2,3'', arg_count = 1, arg_interval = Finite 1,
         arg_image = None\<rparr>"
  have p: "map (py_int sample_env) (split_sep (CHR '','') ''1,2,3'') = [Some 1, Some 2, Some 3]"
    by (simp add: sample_env_def)
  then have "\<not> (\<exists>x y width height.
      map (py_int sample_env) (split_sep (CHR '','') (arg_roi ?a)) = [Some x, Some y, Some width, Some height])"
    by simp
  from main_malformed_roi [OF this, of sample_cv empty_world] p show ?thesis
    by (simp add: main_def parse_ints_def print_def emit_def empty_world_def)
qed

section \<open>Effects of one capture\<close>

lemma emit_fields [simp]:
  "files (emit e w) = files w" "dirs (emit e w) = dirs w" "http_calls (emit e w) = http_calls w"
  "clock_reads (emit e w) = clock_reads w" "trace (emit e w) = trace w @ [e]"
  by (simp_all add: emit_def)

lemma print_fields [simp]:
  "files (print s w) = files w" "dirs (print s w) = dirs w" "http_calls (print s w) = http_calls w"
  "clock_reads (print s w) = clock_reads w" "trace (print s w) = trace w @ [Print s]"
  by (simp_all add: print_def)

lemma write_file_fields [simp]:
  "files (write_file p c w) = (files w)(p \<mapsto> c)" "dirs (write_file p c w) = dirs w"
  "http_calls (write_file p c w) = http_calls w" "clock_reads (write_file p c w) = clock_reads w"
  "trace (write_file p c w) = trace w"
  by (simp_all add: write_file_def)

lemma sleeps_simps [simp]:
  "sleeps (emit e w) = sleeps w @ (if is_sleep e then [e] else [])"
  "sleeps (print s w) = sleeps w"
  "sleeps (write_file p c w) = sleeps w"
  "sleeps (w\<lparr>dirs := d\<rparr>) = sleeps w"
  "sleeps (w\<lparr>clock_reads := n\<rparr>) = sleeps w"
  "sleeps (w\<lparr>http_calls := n\<rparr>) = sleeps w"
  by (simp_all add: sleeps_def)

text \<open>
  Every file that the program writes during a capture has a name that ends in \<open>.jpg\<close>; a
  file whose name does not end in \<open>g\<close> is left as it is.
\<close>

lemma last_path_join: "b \<noteq> [] \<Longrightarrow> last (path_join a b) = last b"
  by (auto simp: path_join_def)

lemma jpg_path_last:
  "last (path_join d (b @ ''_result.jpg'')) = CHR ''g''"
  "last (path_join d (b @ ''_roi.jpg'')) = CHR ''g''"
  "last (path_join d (''meter_'' @ t @ ''.jpg'')) = CHR ''g''"
  by (subst last_path_join; simp)+

lemma jpg_path_neq:
  assumes "last q \<noteq> CHR ''g''"
  shows "\<forall>d b. path_join d (b @ ''_result.jpg'') \<noteq> q \<and> q \<noteq> path_join d (b @ ''_result.jpg'')"
    and "\<forall>d b. path_join d (b @ ''_roi.jpg'') \<noteq> q \<and> q \<noteq> path_join d (b @ ''_roi.jpg'')"
    and "\<forall>d t. path_join d (''meter_'' @ t @ ''.jpg'') \<noteq> q
              \<and> q \<noteq> path_join d (''meter_'' @ t @ ''.jpg'')"
  using assms jpg_path_last by metis+

lemma download_image_files:
  assumes "last q \<noteq> CHR ''g''"
  shows "files (snd (download_image ev url sd w)) q = files w q"
  using jpg_path_neq(3) [OF assms]
  by (simp add: download_image_def now_strftime_def requests_get_def Let_def
      split: http_result.splits option.splits)

lemma download_image_fields:
  "http_calls (snd (download_image ev url sd w)) = Suc (http_calls w)"
  "sleeps (snd (download_image ev url sd w)) = sleeps w"
  "clock_reads (snd (download_image ev url sd w)) = Suc (clock_reads w)"
  "dirs (snd (download_image ev url sd w)) = (if path_exists w sd then dirs w else insert sd (dirs w))"
  by (simp_all add: download_image_def now_strftime_def requests_get_def Let_def
      split: http_result.splits option.splits)

lemma download_image_failed:
  assumes "download_failed (http_get ev (http_calls w) url)"
  shows "fst (download_image ev url sd w) = None"
  using assms
  by (cases "http_get ev (http_calls w) url")
    (simp_all add: download_image_def now_strftime_def requests_get_def Let_def)

lemma rfind_last_sep: "c \<notin> set s \<Longrightarrow> rfind c (a @ c # s) = int (length a)"
proof -
  assume "c \<notin> set s"
  then have "takeWhile (\<lambda>x. x \<noteq> c) (rev s @ c # rev a) = rev s"
    by (auto simp: takeWhile_tail)
  then show ?thesis by (simp add: rfind_def)
qed

lemma path_dirname_capture:
  assumes "CHR ''/'' \<notin> set t"
  shows "path_dirname (path_join ''meter_images'' (''meter_'' @ t @ ''.jpg'')) = ''meter_images''"
proof -
  have "CHR ''/'' \<notin> set (''meter_'' @ t @ ''.jpg'')" using assms by simp
  from rfind_last_sep [OF this, of "''meter_images''"]
  have "rfind (CHR ''/'') (''meter_images'' @ CHR ''/'' # ''meter_'' @ t @ ''.jpg'') = 12"
    by simp
  then show ?thesis by (simp add: path_dirname_def path_join_def)
qed

lemma download_image_saved:
  assumes http: "http_get ev (http_calls w) url = Response 200 body"
    and nofile: "files w ''meter_images'' = None"
    and nodir: "\<forall>d \<in> dirs w. last d \<noteq> CHR ''g''"
    and t: "CHR ''/'' \<notin> set (strftime_now ev (clock_reads w) ''%Y%m%d_%H%M%S'')"
  shows "\<exists>p. fst (download_image ev url ''meter_images'' w) = Some p \<and> p \<noteq> []
           \<and> files (snd (download_image ev url ''meter_images'' w)) p = Some body"
proof -
  let ?t = "strftime_now ev (clock_reads w) ''%Y%m%d_%H%M%S''"
  let ?p = "path_join ''meter_images'' (''meter_'' @ ?t @ ''.jpg'')"
  have dn: "path_dirname ?p = ''meter_images''" using t by (rule path_dirname_capture)
  have lp: "last ?p = CHR ''g''" by (rule jpg_path_last)
  then have neq: "?p \<noteq> ''meter_images''" by auto
  from lp nodir have nd: "?p \<notin> dirs w" by auto
  have ne: "?p \<noteq> []" by (simp add: path_join_def)
  show ?thesis
    using http nofile dn nd ne neq
    by (simp add: download_image_def now_strftime_def requests_get_def Let_def open_error_def
        path_exists_def)
qed

lemma process_meter_image_files:
  assumes "last q \<noteq> CHR ''g''"
  shows "files (snd (process_meter_image cv p (x, y, w, h) wd)) q = files wd q"
  using jpg_path_neq(1,2) [OF assms]
  by (simp add: imread_def imwrite_def Let_def split: option.splits sum.splits)

lemma process_meter_image_fields:
  "http_calls (snd (process_meter_image cv p (x, y, w, h) wd)) = http_calls wd"
  "sleeps (snd (process_meter_image cv p (x, y, w, h) wd)) = sleeps wd"
  "clock_reads (snd (process_meter_image cv p (x, y, w, h) wd)) = clock_reads wd"
  "dirs (snd (process_meter_image cv p (x, y, w, h) wd)) = dirs wd"
  by (simp_all add: imread_def imwrite_def Let_def split: option.splits sum.splits)

lemma process_meter_image_effect:
  assumes "process_meter_image cv p roi w = (r, w')"
  shows "last q \<noteq> CHR ''g'' \<Longrightarrow> files w' q = files w q" and "http_calls w' = http_calls w"
    and "sleeps w' = sleeps w" and "clock_reads w' = clock_reads w" and "dirs w' = dirs w"
proof -
  obtain x y wi h where roi: "roi = (x, y, wi, h)" by (cases roi) auto
  have w': "w' = snd (process_meter_image cv p (x, y, wi, h) w)"
    using assms by (simp add: roi)
  show "files w' q = files w q" if "last q \<noteq> CHR ''g''"
    unfolding w' using that by (rule process_meter_image_files)
  show "http_calls w' = http_calls w" and "sleeps w' = sleeps w"
    and "clock_reads w' = clock_reads w" and "dirs w' = dirs w"
    unfolding w' by (simp_all only: process_meter_image_fields)
qed

lemma download_image_effect:
  assumes "download_image ev url sd w = (r, w')"
  shows "last q \<noteq> CHR ''g'' \<Longrightarrow> files w' q = files w q" and "http_calls w' = Suc (http_calls w)"
    and "sleeps w' = sleeps w" and "clock_reads w' = Suc (clock_reads w)"
    and "dirs w' = (if path_exists w sd then dirs w else insert sd (dirs w))"
proof -
  have w': "w' = snd (download_image ev url sd w)" using assms by simp
  show "files w' q = files w q" if "last q \<noteq> CHR ''g''"
    unfolding w' using that by (rule download_image_files)
  show "http_calls w' = Suc (http_calls w)" and "sleeps w' = sleeps w"
    and "clock_reads w' = Suc (clock_reads w)"
    and "dirs w' = (if path_exists w sd then dirs w else insert sd (dirs w))"
    unfolding w' by (simp_all only: download_image_fields)
qed

lemma capture_outcome_captured:
  assumes "capture_outcome cv ev url roi w = Captured r"
  shows "\<exists>p w1 w2. download_image ev url ''meter_images'' w = (Some p, w1) \<and> p \<noteq> []
           \<and> process_meter_image cv p roi w1 = (Inr r, w2)"
proof -
  obtain ip w1 where d: "download_image ev url ''meter_images'' w = (ip, w1)"
    by (cases "download_image ev url ''meter_images'' w") auto
  show ?thesis
  proof (cases ip)
    case None
    with assms d show ?thesis by (simp add: capture_outcome_def)
  next
    case (Some p)
    obtain pr w2 where pm: "process_meter_image cv p roi w1 = (pr, w2)"
      by (cases "process_meter_image cv p roi w1") auto
    with assms d Some have "p \<noteq> []" and "pr = Inr r"
      by (auto simp: capture_outcome_def split: if_splits sum.splits)
    with d Some pm show ?thesis by simp
  qed
qed

lemma capture_outcome_reading:
  assumes "capture_outcome cv ev url roi w = Captured r"
  shows "r = ''16737''"
proof -
  obtain x y wi h where roi: "roi = (x, y, wi, h)" by (cases roi) auto
  from capture_outcome_captured [OF assms]
  obtain p w1 w2 where "process_meter_image cv p roi w1 = (Inr r, w2)" by blast
  then have "fst (process_meter_image cv p (x, y, wi, h) w1) = Inr r" by (simp add: roi)
  then show ?thesis
    unfolding process_meter_image_result by (auto split: option.splits sum.splits)
qed

lemma capture_outcome_offline:
  assumes "download_failed (http_get ev (http_calls w) url)"
  shows "capture_outcome cv ev url roi w = DownloadFailed"
proof -
  obtain ip w1 where d: "download_image ev url ''meter_images'' w = (ip, w1)"
    by (cases "download_image ev url ''meter_images'' w") auto
  with download_image_failed [OF assms, of "''meter_images''"] have "ip = None" by simp
  with d show ?thesis by (simp add: capture_outcome_def)
qed

lemma capture_outcome_ok:
  assumes http: "http_get ev (http_calls w) url = Response 200 body"
    and nofile: "files w ''meter_images'' = None"
    and nodir: "\<forall>d \<in> dirs w. last d \<noteq> CHR ''g''"
    and t: "CHR ''/'' \<notin> set (strftime_now ev (clock_reads w) ''%Y%m%d_%H%M%S'')"
    and dec: "imdecode cv body = Some img"
    and ne: "\<not> is_empty (roi_crop img roi)"
    and sp: "shape_preserving (clahe_apply cv)"
    and dr: "drawing_accepts cv img roi"
  shows "capture_outcome cv ev url roi w = Captured ''16737''"
proof -
  obtain ip w1 where d: "download_image ev url ''meter_images'' w = (ip, w1)"
    by (cases "download_image ev url ''meter_images'' w") auto
  with download_image_saved [OF http nofile nodir t]
  obtain p where p: "ip = Some p" "p \<noteq> []" "files w1 p = Some body" by auto
  obtain pr w2 where pm: "process_meter_image cv p roi w1 = (pr, w2)"
    by (cases "process_meter_image cv p roi w1") auto
  with process_meter_image_ok [OF p(3) dec ne sp dr] have "pr = Inr ''16737''" by simp
  with d p pm show ?thesis by (simp add: capture_outcome_def)
qed

lemma capture_iteration_skipped:
  assumes "capture_outcome cv ev url roi w = DownloadFailed"
  shows "\<exists>w'. capture_iteration cv ev url roi cc iv i rs w = (Inr rs, w') \<and> sleeps w' = sleeps w"
proof -
  obtain ip w1 where d: "download_image ev url ''meter_images'' w = (ip, w1)"
    by (cases "download_image ev url ''meter_images'' w") auto
  note e = download_image_effect [OF d]
  have "ip = None \<or> ip = Some []"
  proof (cases ip)
    case None
    then show ?thesis by simp
  next
    case (Some p)
    obtain pr w2 where pm: "process_meter_image cv p roi w1 = (pr, w2)"
      by (cases "process_meter_image cv p roi w1") auto
    with assms d Some show ?thesis
      by (auto simp: capture_outcome_def split: if_splits sum.splits)
  qed
  then show ?thesis
    using d e(3) by (auto simp: capture_iteration_def Let_def)
qed

lemma capture_iteration_captured:
  assumes "capture_outcome cv ev url roi w = Captured r"
  shows "\<exists>t w4. sleeps w4 = sleeps w
           \<and> capture_iteration cv ev url roi cc iv i rs w =
               (if i < cc - 1
                then (case time_sleep ev iv of
                        Some e \<Rightarrow> (Inl e, w4)
                      | None \<Rightarrow> (Inr (rs @ [(t, r)]), emit (Sleep iv) w4))
                else (Inr (rs @ [(t, r)]), w4))"
proof -
  from capture_outcome_captured [OF assms]
  obtain p w1 w2 where d: "download_image ev url ''meter_images'' w = (Some p, w1)"
    and p: "p \<noteq> []" and pm: "process_meter_image cv p roi w1 = (Inr r, w2)" by blast
  have s2: "sleeps w2 = sleeps w"
    using download_image_effect(3) [OF d] process_meter_image_effect(3) [OF pm] by simp
  let ?t = "strftime_now ev (clock_reads w2) ''%Y-%m-%d %H:%M:%S''"
  let ?w4 = "print (''Capture '' @ str_int (i + 1) @ ''/'' @ str_int cc @ '': '' @ r @ '' kWh'')
               (w2\<lparr>clock_reads := Suc (clock_reads w2)\<rparr>)"
  have "sleeps ?w4 = sleeps w" using s2 by simp
  moreover have "capture_iteration cv ev url roi cc iv i rs w =
               (if i < cc - 1
                then (case time_sleep ev iv of
                        Some e \<Rightarrow> (Inl e, ?w4)
                      | None \<Rightarrow> (Inr (rs @ [(?t, r)]), emit (Sleep iv) ?w4))
                else (Inr (rs @ [(?t, r)]), ?w4))"
    using p by (simp add: capture_iteration_def d pm now_strftime_def sleep_def Let_def
        split: option.splits)
  ultimately show ?thesis by blast
qed

lemma capture_iteration_frame:
  assumes "capture_iteration cv ev url roi cc iv i rs w = (r, w')"
  shows "last q \<noteq> CHR ''g'' \<Longrightarrow> files w' q = files w q"
    and "http_calls w' = Suc (http_calls w)"
    and "dirs w' = (if path_exists w ''meter_images'' then dirs w else insert ''meter_images'' (dirs w))"
proof -
  obtain ip w1 where d: "download_image ev url ''meter_images'' w = (ip, w1)"
    by (cases "download_image ev url ''meter_images'' w") auto
  note e = download_image_effect [OF d]
  let ?D = "if path_exists w ''meter_images'' then dirs w else insert ''meter_images'' (dirs w)"
  let ?it = "capture_iteration cv ev url roi cc iv i rs w"
  have w': "w' = snd ?it" using assms by simp
  have "(last q \<noteq> CHR ''g'' \<longrightarrow> files (snd ?it) q = files w q)
      \<and> http_calls (snd ?it) = Suc (http_calls w) \<and> dirs (snd ?it) = ?D"
  proof (cases ip)
    case None
    with d e show ?thesis by (simp add: capture_iteration_def Let_def)
  next
    case (Some p)
    obtain pr w2 where pm: "process_meter_image cv p roi w1 = (pr, w2)"
      by (cases "process_meter_image cv p roi w1") auto
    note f = process_meter_image_effect [OF pm]
    have "last q \<noteq> CHR ''g'' \<longrightarrow> files w2 q = files w q"
      using f(1) e(1) by simp
    moreover have "http_calls w2 = Suc (http_calls w)" "dirs w2 = ?D"
      using e f by simp_all
    ultimately show ?thesis
      using e by (simp add: capture_iteration_def d Some pm now_strftime_def sleep_def Let_def
          split: sum.splits option.splits)
  qed
  then show "last q \<noteq> CHR ''g'' \<Longrightarrow> files w' q = files w q"
    and "http_calls w' = Suc (http_calls w)"
    and "dirs w' = ?D" unfolding w' by simp_all
qed

lemma capture_loop_frame:
  "capture_loop cv ev url roi cc iv idx rs w = (r, w') \<Longrightarrow>
     (last q \<noteq> CHR ''g'' \<longrightarrow> files w' q = files w q)
     \<and> dirs w \<subseteq> dirs w' \<and> dirs w' \<subseteq> insert ''meter_images'' (dirs w)"
proof (induction idx arbitrary: rs w)
  case Nil
  then show ?case by auto
next
  case (Cons i idx)
  obtain r1 w1 where it: "capture_iteration cv ev url roi cc iv i rs w = (r1, w1)"
    by (cases "capture_iteration cv ev url roi cc iv i rs w") auto
  note e = capture_iteration_frame [OF it]
  have one: "(last q \<noteq> CHR ''g'' \<longrightarrow> files w1 q = files w q)
     \<and> dirs w \<subseteq> dirs w1 \<and> dirs w1 \<subseteq> insert ''meter_images'' (dirs w)"
    using e(1) e(3) by auto
  show ?case
  proof (cases r1)
    case (Inl e)
    with Cons.prems it one show ?thesis by simp
  next
    case (Inr rs1)
    with Cons.prems it have "capture_loop cv ev url roi cc iv idx rs1 w1 = (r, w')" by simp
    from Cons.IH [OF this] one show ?thesis by auto
  qed
qed

lemma capture_loop_offline:
  assumes "\<forall>n. download_failed (http_get ev n url)"
  shows "\<exists>w'. capture_loop cv ev url roi cc iv idx rs w = (Inr rs, w') \<and> sleeps w' = sleeps w"
proof (induction idx arbitrary: w)
  case Nil
  then show ?case by simp
next
  case (Cons i idx)
  from assms have "download_failed (http_get ev (http_calls w) url)" by simp
  then have "capture_outcome cv ev url roi w = DownloadFailed" by (rule capture_outcome_offline)
  from capture_iteration_skipped [OF this, of cc iv i rs]
  obtain w1 where it: "capture_iteration cv ev url roi cc iv i rs w = (Inr rs, w1)"
    and s1: "sleeps w1 = sleeps w" by blast
  from Cons.IH [of w1] obtain w' where
    "capture_loop cv ev url roi cc iv idx rs w1 = (Inr rs, w')" "sleeps w' = sleeps w1" by blast
  with it s1 show ?case by simp
qed

section \<open>Effects of a session\<close>

lemma py_range_3: "py_range 3 = [0, 1, 2]"
  by (simp add: py_range_def upt_rec)

lemma py_range_1: "py_range 1 = [0]"
  by (simp add: py_range_def)

lemma fold_csv_rows: "fold (\<lambda>r f. f @ csv_row r) rs f0 = f0 @ concat (map csv_row rs)"
  by (induction rs arbitrary: f0) simp_all

lemma fold_frame:
  assumes "\<And>x w. f (h x w) = f w"
  shows "f (fold h rs w) = f w"
  using assms by (induction rs arbitrary: w) simp_all

lemma fold_trace_mono:
  assumes "\<And>x w. set (trace w) \<subseteq> set (trace (h x w))"
  shows "set (trace w) \<subseteq> set (trace (fold h rs w))"
proof (induction rs arbitrary: w)
  case Nil
  then show ?case by simp
next
  case (Cons a rs)
  have "set (trace w) \<subseteq> set (trace (h a w))" by (rule assms)
  also have "\<dots> \<subseteq> set (trace (fold h rs (h a w)))" by (rule Cons.IH)
  finally show ?case by simp
qed

lemma print_summary_fields:
  "files (print_summary rs cc w) = files w"
  "http_calls (print_summary rs cc w) = http_calls w"
  "sleeps (print_summary rs cc w) = sleeps w"
  "dirs (print_summary rs cc w) = dirs w"
proof -
  let ?h = "\<lambda>(timestamp, reading). print (timestamp @ ''    '' @ reading)"
  have "files (fold ?h rs v) = files v" for v
    by (rule fold_frame) (simp add: split_def)
  moreover have "http_calls (fold ?h rs v) = http_calls v" for v
    by (rule fold_frame) (simp add: split_def)
  moreover have "sleeps (fold ?h rs v) = sleeps v" for v
    by (rule fold_frame) (simp add: split_def)
  moreover have "dirs (fold ?h rs v) = dirs v" for v
    by (rule fold_frame) (simp add: split_def)
  ultimately show "files (print_summary rs cc w) = files w"
    and "http_calls (print_summary rs cc w) = http_calls w"
    and "sleeps (print_summary rs cc w) = sleeps w"
    and "dirs (print_summary rs cc w) = dirs w"
    unfolding print_summary_def Let_def by simp_all
qed

lemma print_summary_total:
  "Print (''Total captures: '' @ str_int (int (length rs)) @ ''/'' @ str_int cc)
     \<in> set (trace (print_summary rs cc w))"
proof -
  let ?h = "\<lambda>(timestamp, reading). print (timestamp @ ''    '' @ reading)"
  let ?total = "Print (''Total captures: '' @ str_int (int (length rs)) @ ''/'' @ str_int cc)"
  have mono: "set (trace v) \<subseteq> set (trace (fold ?h rs v))" for v
    by (rule fold_trace_mono) (auto simp: split_def)
  let ?w3 = "print (''Total captures: '' @ str_int (int (length rs)) @ ''/'' @ str_int cc)
               (print (replicate 60 (CHR ''='')) (print (nl @ ''Capture Summary:'') w))"
  let ?w5 = "print (replicate 40 (CHR ''-''))
               (print (nl @ ''Timestamp                Reading (kWh)'') ?w3)"
  have "?total \<in> set (trace ?w3)" and "?total \<in> set (trace ?w5)" by simp_all
  moreover have "set (trace ?w5) \<subseteq> set (trace (fold ?h rs ?w5))" by (rule mono)
  ultimately have "?total \<in> set (trace ?w3)" and "?total \<in> set (trace (fold ?h rs ?w5))"
    by blast+
  then have in3: "?total \<in> set (trace ?w3)" and in5: "?total \<in> set (trace (fold ?h rs ?w5))"
    by simp_all
  have eq3: "print_summary rs cc w = ?w3" if "rs = []"
    using that by (simp add: print_summary_def Let_def)
  have eq5: "print_summary rs cc w = fold ?h rs ?w5" if "rs \<noteq> []"
    using that by (simp add: print_summary_def Let_def)
  show ?thesis
  proof (cases "rs = []")
    case True
    from in3 show ?thesis by (simp only: eq3 [OF True])
  next
    case False
    from in5 show ?thesis by (simp only: eq5 [OF False])
  qed
qed

lemma path_dirname_csv: "path_dirname csv_path = []"
  by (simp add: path_dirname_def rfind_def csv_path_def)

lemma save_readings_empty: "save_readings [] w = (None, w)"
  by (simp add: save_readings_def)

lemma save_readings_fields:
  "http_calls (snd (save_readings rs w)) = http_calls w"
  "sleeps (snd (save_readings rs w)) = sleeps w"
  "set (trace w) \<subseteq> set (trace (snd (save_readings rs w)))"
  by (auto simp: save_readings_def Let_def split: option.splits)

lemma save_readings_files:
  "q \<noteq> csv_path \<Longrightarrow> files (snd (save_readings rs w)) q = files w q"
  by (simp add: save_readings_def Let_def split: option.splits)

lemma save_readings_dirs: "dirs (snd (save_readings rs w)) = dirs w"
  by (simp add: save_readings_def Let_def split: option.splits)

lemma save_readings_result:
  "fst (save_readings rs w) = (if rs = [] then None else open_error w csv_path)"
  by (simp add: save_readings_def Let_def split: option.splits)

lemma open_error_csv:
  "open_error w csv_path = None \<longleftrightarrow> csv_path \<notin> dirs w"
  by (simp add: open_error_def path_dirname_csv)

lemma save_readings_raised:
  "fst (save_readings rs w) \<noteq> None \<Longrightarrow> snd (save_readings rs w) = w"
  by (auto simp: save_readings_def Let_def split: option.splits if_splits)

lemma save_readings_csv:
  assumes "fst (save_readings rs w) = None"
  shows "files (snd (save_readings rs w)) csv_path =
     (if rs = [] then files w csv_path
      else Some ((case files w csv_path of None \<Rightarrow> csv_header | Some old \<Rightarrow> old)
                 @ concat (map csv_row rs)))"
proof (cases "rs = []")
  case True
  then show ?thesis by (simp add: save_readings_empty)
next
  case False
  with assms have "open_error w csv_path = None" by (simp add: save_readings_result)
  then have "csv_path \<notin> dirs w" by (simp add: open_error_csv)
  with False \<open>open_error w csv_path = None\<close> show ?thesis
    by (simp add: save_readings_def Let_def path_exists_def open_text_def fold_csv_rows
        split: option.splits)
qed

lemma session_start_fields [simp]:
  "files (session_start ev cc iv w) = files w"
  "http_calls (session_start ev cc iv w) = http_calls w"
  "sleeps (session_start ev cc iv w) = sleeps w"
  "dirs (session_start ev cc iv w) = dirs w"
  "clock_reads (session_start ev cc iv w) = clock_reads w"
  by (simp_all add: session_start_def)

lemma capture_and_process_unfold:
  "capture_and_process cv ev url roi cc iv w =
     (case capture_loop cv ev url roi cc iv (py_range cc) [] (session_start ev cc iv w) of
        (Inl e, w3) \<Rightarrow> (Inl e, w3)
      | (Inr rs, w3) \<Rightarrow>
          (case save_readings rs (print_summary rs cc w3) of
             (Some e, w4) \<Rightarrow> (Inl e, w4)
           | (None, w4) \<Rightarrow> (Inr rs, w4)))"
  by (simp add: capture_and_process_def session_start_def Let_def)

lemma capture_and_process_csv:
  assumes "capture_and_process cv ev url roi cc iv w = (r, w')"
  shows "files w' csv_path =
     (case r of
        Inl e \<Rightarrow> files w csv_path
      | Inr rs \<Rightarrow>
          if rs = [] then files w csv_path
          else Some ((case files w csv_path of None \<Rightarrow> csv_header | Some old \<Rightarrow> old)
                     @ concat (map csv_row rs)))"
proof -
  obtain r3 w3 where loop:
    "capture_loop cv ev url roi cc iv (py_range cc) [] (session_start ev cc iv w) = (r3, w3)"
    by (cases "capture_loop cv ev url roi cc iv (py_range cc) [] (session_start ev cc iv w)") auto
  have "last csv_path \<noteq> CHR ''g''" by (simp add: csv_path_def)
  with capture_loop_frame [OF loop, of csv_path]
  have csv3: "files w3 csv_path = files w csv_path" by simp
  show ?thesis
  proof (cases r3)
    case (Inl e)
    with assms loop csv3 show ?thesis by (auto simp: capture_and_process_unfold)
  next
    case (Inr rs)
    let ?w = "print_summary rs cc w3"
    obtain se w4 where sv: "save_readings rs ?w = (se, w4)"
      by (cases "save_readings rs ?w") auto
    show ?thesis
    proof (cases se)
      case None
      with assms loop Inr sv have r: "r = Inr rs" "w' = w4"
        by (auto simp: capture_and_process_unfold)
      from sv None have "fst (save_readings rs ?w) = None" by simp
      from save_readings_csv [OF this] sv r show ?thesis
        by (simp add: print_summary_fields csv3)
    next
      case (Some e)
      with assms loop Inr sv have r: "r = Inl e" "w' = w4"
        by (auto simp: capture_and_process_unfold)
      from sv Some have "fst (save_readings rs ?w) \<noteq> None" by simp
      from save_readings_raised [OF this] sv r show ?thesis
        by (simp add: print_summary_fields csv3)
    qed
  qed
qed

lemma capture_and_process_offline:
  assumes "\<forall>n. download_failed (http_get ev n url)"
  shows "\<exists>w'. capture_and_process cv ev url roi cc iv w = (Inr [], w') \<and> sleeps w' = sleeps w"
proof -
  from capture_loop_offline [OF assms, of cv roi cc iv "py_range cc" "[]" "session_start ev cc iv w"]
  obtain w3 where
    "capture_loop cv ev url roi cc iv (py_range cc) [] (session_start ev cc iv w) = (Inr [], w3)"
    and "sleeps w3 = sleeps w" by auto
  then show ?thesis
    by (simp add: capture_and_process_unfold save_readings_empty print_summary_fields)
qed

text \<open>
  The session of three captures in which the second attempt fails at the download and
  the other two capture a reading: the loop runs to its end with two records, three
  requests and one pause, the one after the first iteration.
\<close>

lemma attempt_outcome_0:
  "attempt_outcome cv ev url roi 3 iv w 0
     = Some (capture_outcome cv ev url roi (session_start ev 3 iv w))"
  by (simp add: attempt_outcome_def)

lemma attempt_outcome_Suc:
  assumes "capture_loop cv ev url roi 3 iv (take k (py_range 3)) [] (session_start ev 3 iv w)
             = (Inr rs, wk)"
    and "k < 3"
  shows "attempt_outcome cv ev url roi 3 iv w k = Some (capture_outcome cv ev url roi wk)"
  using assms by (simp add: attempt_outcome_def)

lemma capture_loop_three_attempts:
  assumes o1: "attempt_outcome cv ev url roi 3 iv w 0 = Some (Captured r1)"
    and o2: "attempt_outcome cv ev url roi 3 iv w 1 = Some DownloadFailed"
    and o3: "attempt_outcome cv ev url roi 3 iv w 2 = Some (Captured r3)"
  shows "\<exists>t1 t3 w3. capture_loop cv ev url roi 3 iv (py_range 3) [] (session_start ev 3 iv w)
             = (Inr [(t1, ''16737''), (t3, ''16737'')], w3)
           \<and> http_calls w3 = http_calls w + 3
           \<and> sleeps w3 = sleeps w @ [Sleep iv]
           \<and> dirs w3 \<subseteq> insert ''meter_images'' (dirs w)"
proof -
  let ?w0 = "session_start ev 3 iv w"
  let ?it = "capture_iteration cv ev url roi 3 iv"
  let ?loop = "capture_loop cv ev url roi 3 iv"
  from o1 have c1: "capture_outcome cv ev url roi ?w0 = Captured r1"
    by (simp add: attempt_outcome_0)
  then have r1: "r1 = ''16737''" by (rule capture_outcome_reading)
  from capture_iteration_captured [OF c1, of 3 iv 0 "[]"]
  have "\<exists>t1 v1. sleeps v1 = sleeps w
      \<and> ?it 0 [] ?w0 =
          (case time_sleep ev iv of Some e \<Rightarrow> (Inl e, v1)
           | None \<Rightarrow> (Inr ([] @ [(t1, r1)]), emit (Sleep iv) v1))"
    by simp
  then obtain t1 v1 where sv1: "sleeps v1 = sleeps w"
    and it1: "?it 0 [] ?w0 =
       (case time_sleep ev iv of Some e \<Rightarrow> (Inl e, v1)
        | None \<Rightarrow> (Inr ([] @ [(t1, r1)]), emit (Sleep iv) v1))"
    by blast
  have ts: "time_sleep ev iv = None"
  proof (rule ccontr)
    assume "time_sleep ev iv \<noteq> None"
    then obtain e where "time_sleep ev iv = Some e" by auto
    with it1 have "?loop (take 1 (py_range 3)) [] ?w0 = (Inl e, v1)"
      by (simp add: py_range_3)
    then have "attempt_outcome cv ev url roi 3 iv w 1 = None"
      by (simp add: attempt_outcome_def)
    with o2 show False by simp
  qed
  let ?w1 = "emit (Sleep iv) v1"
  let ?rs1 = "[(t1, ''16737'')]"
  from it1 ts r1 have it1: "?it 0 [] ?w0 = (Inr ?rs1, ?w1)" by simp
  have s1: "sleeps ?w1 = sleeps w @ [Sleep iv]" using sv1 by simp
  from it1 have "?loop (take 1 (py_range 3)) [] ?w0 = (Inr ?rs1, ?w1)"
    by (simp add: py_range_3)
  from attempt_outcome_Suc [OF this] o2
  have c2: "capture_outcome cv ev url roi ?w1 = DownloadFailed" by simp
  from capture_iteration_skipped [OF c2, of 3 iv 1 ?rs1]
  obtain w2 where it2: "?it 1 ?rs1 ?w1 = (Inr ?rs1, w2)" and s2: "sleeps w2 = sleeps ?w1"
    by blast
  from it1 it2 have "?loop (take 2 (py_range 3)) [] ?w0 = (Inr ?rs1, w2)"
    by (simp add: py_range_3 numeral_2_eq_2)
  from attempt_outcome_Suc [OF this] o3
  have c3: "capture_outcome cv ev url roi w2 = Captured r3" by simp
  then have r3: "r3 = ''16737''" by (rule capture_outcome_reading)
  from capture_iteration_captured [OF c3, of 3 iv 2 ?rs1]
  have "\<exists>t3 w3. sleeps w3 = sleeps w2 \<and> ?it 2 ?rs1 w2 = (Inr (?rs1 @ [(t3, r3)]), w3)"
    by simp
  then obtain t3 w3 where s3: "sleeps w3 = sleeps w2"
    and it3: "?it 2 ?rs1 w2 = (Inr (?rs1 @ [(t3, r3)]), w3)"
    by blast
  from it1 it2 it3 r3
  have loop: "?loop (py_range 3) [] ?w0 = (Inr [(t1, ''16737''), (t3, ''16737'')], w3)"
    by (simp add: py_range_3)
  have "http_calls w3 = http_calls w + 3"
    using capture_iteration_frame(2) [OF it1] capture_iteration_frame(2) [OF it2]
      capture_iteration_frame(2) [OF it3] by simp
  moreover have "sleeps w3 = sleeps w @ [Sleep iv]" using s1 s2 s3 by simp
  moreover have "dirs w3 \<subseteq> insert ''meter_images'' (dirs w)"
    using capture_loop_frame [OF loop, of "[]"] by simp
  ultimately show ?thesis using loop by blast
qed

lemma capture_and_process_three_attempts:
  assumes o1: "attempt_outcome cv ev url roi 3 iv w 0 = Some (Captured r1)"
    and o2: "attempt_outcome cv ev url roi 3 iv w 1 = Some DownloadFailed"
    and o3: "attempt_outcome cv ev url roi 3 iv w 2 = Some (Captured r3)"
  shows "\<exists>t1 t3 w'. capture_and_process cv ev url roi 3 iv w
             = (if csv_path \<in> dirs w
                then Inl (OSError (''[Errno 21] Is a directory: '' @ quoted csv_path))
                else Inr [(t1, ''16737''), (t3, ''16737'')], w')
           \<and> http_calls w' = http_calls w + 3
           \<and> sleeps w' = sleeps w @ [Sleep iv]
           \<and> Print ''Total captures: 2/3'' \<in> set (trace w')"
proof -
  from capture_loop_three_attempts [OF o1 o2 o3]
  obtain t1 t3 w3 where
    loop: "capture_loop cv ev url roi 3 iv (py_range 3) [] (session_start ev 3 iv w)
             = (Inr [(t1, ''16737''), (t3, ''16737'')], w3)"
    and c3: "http_calls w3 = http_calls w + 3"
    and s3: "sleeps w3 = sleeps w @ [Sleep iv]"
    by blast
  let ?rs = "[(t1, ''16737''), (t3, ''16737'')]"
  let ?ws = "print_summary ?rs 3 w3"
  obtain se w' where sv0: "save_readings ?rs ?ws = (se, w')"
    by (cases "save_readings ?rs ?ws") auto
  then have w': "w' = snd (save_readings ?rs ?ws)" by simp
  have "csv_path \<noteq> ''meter_images''" by (simp add: csv_path_def)
  with capture_loop_frame [OF loop, of "[]"]
  have dirs3: "csv_path \<in> dirs w3 \<longleftrightarrow> csv_path \<in> dirs w" by auto
  have "fst (save_readings ?rs ?ws)
      = (if csv_path \<in> dirs w
         then Some (OSError (''[Errno 21] Is a directory: '' @ quoted csv_path)) else None)"
    by (simp add: save_readings_result open_error_def path_dirname_csv print_summary_fields dirs3)
  with sv0 have sv: "save_readings ?rs ?ws
      = (if csv_path \<in> dirs w
         then Some (OSError (''[Errno 21] Is a directory: '' @ quoted csv_path)) else None, w')"
    by simp
  have res: "capture_and_process cv ev url roi 3 iv w
      = (if csv_path \<in> dirs w
         then Inl (OSError (''[Errno 21] Is a directory: '' @ quoted csv_path))
         else Inr ?rs, w')"
    by (simp add: capture_and_process_unfold loop sv)
  have "Print (''Total captures: '' @ str_int (int (length ?rs)) @ ''/'' @ str_int 3)
          \<in> set (trace ?ws)"
    by (rule print_summary_total)
  then have "Print ''Total captures: 2/3'' \<in> set (trace ?ws)"
    by (simp add: str_int_def str_nat.simps)
  then have tot: "Print ''Total captures: 2/3'' \<in> set (trace w')"
    unfolding w' using save_readings_fields(3) by blast
  have "http_calls w' = http_calls w + 3" "sleeps w' = sleeps w @ [Sleep iv]"
    unfolding w' by (simp_all add: save_readings_fields print_summary_fields c3 s3)
  with res tot show ?thesis by blast
qed

text \<open>
  Surroundings that make such a session: the first and the third request are answered
  with status 200 and a decodable image on which the pipeline and the drawing calls work,
  the second request fails, \<open>time.sleep\<close> accepts the interval, \<open>meter_images\<close> is not a
  regular file, no directory has a name that ends in \<open>g\<close>, and the clock prints no slash.
\<close>

lemma three_attempts_outcomes:
  assumes sp: "shape_preserving (clahe_apply cv)"
    and ts: "time_sleep ev iv = None"
    and h1: "http_get ev (http_calls w) url = Response 200 body1"
    and d1: "imdecode cv body1 = Some img1" and ne1: "\<not> is_empty (roi_crop img1 roi)"
    and dr1: "drawing_accepts cv img1 roi"
    and h2: "download_failed (http_get ev (Suc (http_calls w)) url)"
    and h3: "http_get ev (Suc (Suc (http_calls w))) url = Response 200 body3"
    and d3: "imdecode cv body3 = Some img3" and ne3: "\<not> is_empty (roi_crop img3 roi)"
    and dr3: "drawing_accepts cv img3 roi"
    and nofile: "files w ''meter_images'' = None"
    and nodir: "\<forall>d \<in> dirs w. last d \<noteq> CHR ''g''"
    and clock: "\<forall>n. CHR ''/'' \<notin> set (strftime_now ev n ''%Y%m%d_%H%M%S'')"
  shows "attempt_outcome cv ev url roi 3 iv w 0 = Some (Captured ''16737'')"
    and "attempt_outcome cv ev url roi 3 iv w 1 = Some DownloadFailed"
    and "attempt_outcome cv ev url roi 3 iv w 2 = Some (Captured ''16737'')"
proof -
  let ?w0 = "session_start ev 3 iv w"
  let ?it = "capture_iteration cv ev url roi 3 iv"
  let ?loop = "capture_loop cv ev url roi 3 iv"
  have mi: "last ''meter_images'' \<noteq> CHR ''g''" by simp
  have c1: "capture_outcome cv ev url roi ?w0 = Captured ''16737''"
    using h1 nofile nodir clock d1 ne1 sp dr1 by (intro capture_outcome_ok) simp_all
  then show o1: "attempt_outcome cv ev url roi 3 iv w 0 = Some (Captured ''16737'')"
    by (simp add: attempt_outcome_0)
  from capture_iteration_captured [OF c1, of 3 iv 0 "[]"] ts
  obtain t1 w1 where it1: "?it 0 [] ?w0 = (Inr [(t1, ''16737'')], w1)" by auto
  note f1 = capture_iteration_frame [OF it1]
  have loop1: "?loop (take 1 (py_range 3)) [] ?w0 = (Inr [(t1, ''16737'')], w1)"
    using it1 by (simp add: py_range_3)
  have "download_failed (http_get ev (http_calls w1) url)" using h2 f1(2) by simp
  then have c2: "capture_outcome cv ev url roi w1 = DownloadFailed"
    by (rule capture_outcome_offline)
  with attempt_outcome_Suc [OF loop1]
  show o2: "attempt_outcome cv ev url roi 3 iv w 1 = Some DownloadFailed" by simp
  from capture_iteration_skipped [OF c2, of 3 iv 1 "[(t1, ''16737'')]"]
  obtain w2 where it2: "?it 1 [(t1, ''16737'')] w1 = (Inr [(t1, ''16737'')], w2)" by blast
  note f2 = capture_iteration_frame [OF it2]
  have loop2: "?loop (take 2 (py_range 3)) [] ?w0 = (Inr [(t1, ''16737'')], w2)"
    using it1 it2 by (simp add: py_range_3 numeral_2_eq_2)
  have "http_get ev (http_calls w2) url = Response 200 body3" using h3 f1(2) f2(2) by simp
  moreover have "files w2 ''meter_images'' = None"
    using f1(1) [OF mi] f2(1) [OF mi] nofile by simp
  moreover have "\<forall>d \<in> dirs w2. last d \<noteq> CHR ''g''"
    using f1(3) f2(3) nodir by (auto split: if_splits)
  ultimately have "capture_outcome cv ev url roi w2 = Captured ''16737''"
    using clock d3 ne3 sp dr3 by (intro capture_outcome_ok) simp_all
  with attempt_outcome_Suc [OF loop2]
  show "attempt_outcome cv ev url roi 3 iv w 2 = Some (Captured ''16737'')" by simp
qed

lemma str_nat_digits: "set (str_nat n) \<subseteq> set ''0123456789''"
proof (induction n rule: str_nat.induct)
  case (1 n)
  have d: "''0123456789'' ! k \<in> set ''0123456789''" if "k < 10" for k
    using that by (intro nth_mem) simp
  show ?case
  proof (cases "n < 10")
    case True
    with d [of n] show ?thesis by (subst str_nat.simps) simp
  next
    case False
    with 1 d [of "n mod 10"] show ?thesis by (subst str_nat.simps) simp
  qed
qed

lemma str_nat_no_slash: "CHR ''/'' \<notin> set (str_nat n)"
  using str_nat_digits [of n] by auto

text \<open>A session of one capture that succeeds.\<close>

lemma session_one_capture:
  assumes h: "http_get ev (http_calls w) url = Response 200 body"
    and d: "imdecode cv body = Some img" and ne: "\<not> is_empty (roi_crop img roi)"
    and sp: "shape_preserving (clahe_apply cv)"
    and dr: "drawing_accepts cv img roi"
    and nofile: "files w ''meter_images'' = None"
    and nodir: "\<forall>d \<in> dirs w. last d \<noteq> CHR ''g''"
    and csv: "csv_path \<notin> dirs w"
    and clock: "CHR ''/'' \<notin> set (strftime_now ev (clock_reads w) ''%Y%m%d_%H%M%S'')"
  shows "\<exists>t w'. capture_and_process cv ev url roi 1 iv w = (Inr [(t, ''16737'')], w')
           \<and> http_calls w' = Suc (http_calls w)
           \<and> files w' ''meter_images'' = None
           \<and> dirs w' \<subseteq> insert ''meter_images'' (dirs w)"
proof -
  let ?w0 = "session_start ev 1 iv w"
  have mi: "last ''meter_images'' \<noteq> CHR ''g''" by simp
  have c: "capture_outcome cv ev url roi ?w0 = Captured ''16737''"
    using h nofile nodir clock d ne sp dr by (intro capture_outcome_ok) simp_all
  from capture_iteration_captured [OF c, of 1 iv 0 "[]"]
  obtain t w1 where it: "capture_iteration cv ev url roi 1 iv 0 [] ?w0 = (Inr [(t, ''16737'')], w1)"
    by auto
  note f = capture_iteration_frame [OF it]
  let ?rs = "[(t, ''16737'')]"
  let ?ws = "print_summary ?rs 1 w1"
  obtain se w' where sv0: "save_readings ?rs ?ws = (se, w')"
    by (cases "save_readings ?rs ?ws") auto
  then have w': "w' = snd (save_readings ?rs ?ws)" by simp
  have loop: "capture_loop cv ev url roi 1 iv (py_range 1) [] ?w0 = (Inr ?rs, w1)"
    by (simp add: py_range_1 it)
  have "csv_path \<noteq> ''meter_images''" by (simp add: csv_path_def)
  with f(3) csv have csv1: "csv_path \<notin> dirs w1" by (auto split: if_splits)
  then have "fst (save_readings ?rs ?ws) = None"
    by (simp add: save_readings_result open_error_csv print_summary_fields)
  with sv0 have sv: "save_readings ?rs ?ws = (None, w')" by simp
  have res: "capture_and_process cv ev url roi 1 iv w = (Inr ?rs, w')"
    by (simp add: capture_and_process_unfold loop sv)
  have "http_calls w' = Suc (http_calls w)"
    unfolding w' using f(2) by (simp add: save_readings_fields print_summary_fields)
  moreover have "files w' ''meter_images'' = None"
    unfolding w' using f(1) [OF mi] nofile
    by (simp add: save_readings_files print_summary_fields csv_path_def)
  moreover have "dirs w' \<subseteq> insert ''meter_images'' (dirs w)"
    unfolding w' using f(3)
    by (auto simp: save_readings_dirs print_summary_fields split: if_splits)
  ultimately show ?thesis using res by blast
qed

lemma capture_and_process_dirs:
  assumes "capture_and_process cv ev url roi cc iv w = (r, w')"
  shows "dirs w \<subseteq> dirs w'" and "dirs w' \<subseteq> insert ''meter_images'' (dirs w)"
proof -
  obtain r3 w3 where loop:
    "capture_loop cv ev url roi cc iv (py_range cc) [] (session_start ev cc iv w) = (r3, w3)"
    by (cases "capture_loop cv ev url roi cc iv (py_range cc) [] (session_start ev cc iv w)") auto
  from capture_loop_frame [OF loop, of "[]"]
  have d3: "dirs w \<subseteq> dirs w3" "dirs w3 \<subseteq> insert ''meter_images'' (dirs w)" by simp_all
  have "dirs w' = dirs w3"
  proof (cases r3)
    case (Inl e)
    with assms loop show ?thesis by (auto simp: capture_and_process_unfold)
  next
    case (Inr rs)
    obtain se w4 where sv: "save_readings rs (print_summary rs cc w3) = (se, w4)"
      by (cases "save_readings rs (print_summary rs cc w3)") auto
    then have "w4 = snd (save_readings rs (print_summary rs cc w3))" by simp
    then have "dirs w4 = dirs w3" by (simp add: save_readings_dirs print_summary_fields)
    moreover from assms loop Inr sv have "w' = w4"
      by (cases se) (auto simp: capture_and_process_unfold)
    ultimately show ?thesis by simp
  qed
  with d3 show "dirs w \<subseteq> dirs w'" and "dirs w' \<subseteq> insert ''meter_images'' (dirs w)"
    by simp_all
qed

text \<open>The sample surroundings make a session whose second download fails.\<close>

lemma sample_library:
  "shape_preserving (clahe_apply sample_cv)"
  "imdecode sample_cv ''PIC'' = Some sample_image"
  "\<not> is_empty (roi_crop sample_image (0, 0, 2, 2))"
  "drawing_accepts sample_cv sample_image (0, 0, 2, 2)"
  by (simp_all add: sample_cv_def sample_image_def shape_preserving_def same_shape_def
      is_empty_def slice_len_def slice_bound_def drawing_accepts_def c_point_def c_int_def)

lemma sample_clock:
  "\<forall>n. CHR ''/'' \<notin> set (strftime_now sample_env n fmt)"
  "\<forall>n. CHR ''/'' \<notin> set (strftime_now online_env n fmt)"
  by (simp_all add: sample_env_def online_env_def str_nat_no_slash)

lemma sample_session:
  assumes "time_sleep sample_env iv = None"
    and "http_calls w = 0" and "files w ''meter_images'' = None"
    and "\<forall>d \<in> dirs w. last d \<noteq> CHR ''g''"
  shows "attempt_outcome sample_cv sample_env url (0, 0, 2, 2) 3 iv w 0 = Some (Captured ''16737'')"
    and "attempt_outcome sample_cv sample_env url (0, 0, 2, 2) 3 iv w 1 = Some DownloadFailed"
    and "attempt_outcome sample_cv sample_env url (0, 0, 2, 2) 3 iv w 2 = Some (Captured ''16737'')"
proof -
  have h: "http_get sample_env (http_calls w) url = Response 200 ''PIC''"
    "download_failed (http_get sample_env (Suc (http_calls w)) url)"
    "http_get sample_env (Suc (Suc (http_calls w))) url = Response 200 ''PIC''"
    using assms(2) by (simp_all add: sample_env_def)
  note o = three_attempts_outcomes [OF sample_library(1) assms(1) h(1) sample_library(2,3,4)
      h(2) h(3) sample_library(2,3,4) assms(3) assms(4) sample_clock(1)]
  from o(1) show "attempt_outcome sample_cv sample_env url (0, 0, 2, 2) 3 iv w 0
      = Some (Captured ''16737'')" .
  from o(2) show "attempt_outcome sample_cv sample_env url (0, 0, 2, 2) 3 iv w 1
      = Some DownloadFailed" .
  from o(3) show "attempt_outcome sample_cv sample_env url (0, 0, 2, 2) 3 iv w 2
      = Some (Captured ''16737'')" .
qed

section \<open>A failed capture does not end the session\<close>




section \<open>The pause between captures\<close>

text \<open>
  Claim C5 asks for a pause after every iteration but the last, whether it succeeded or
  failed. The code does otherwise: in every session of three captures in which the second
  attempt fails at the download and the other two capture a reading, all three iterations
  run (three requests are made), and the session pauses once, after the first iteration;
  the \<open>continue\<close> of the failed second iteration skips the pause that should follow it.
  Where \<open>meter_readings.csv\<close> is not a directory the session returns its records.
\<close>

theorem capture_and_process_pause_skipped:
  assumes "attempt_outcome cv ev url roi 3 interval w 0 = Some (Captured r1)"
    and "attempt_outcome cv ev url roi 3 interval w 1 = Some DownloadFailed"
    and "attempt_outcome cv ev url roi 3 interval w 2 = Some (Captured r3)"
  shows "\<exists>res w'. capture_and_process cv ev url roi 3 interval w = (res, w')
           \<and> http_calls w' = http_calls w + 3
           \<and> sleeps w' = sleeps w @ [Sleep interval]
           \<and> (csv_path \<notin> dirs w \<longrightarrow> (\<exists>rs. res = Inr rs))"
proof -
  from capture_and_process_three_attempts [OF assms]
  obtain t1 t3 w' where
    "capture_and_process cv ev url roi 3 interval w
       = (if csv_path \<in> dirs w
          then Inl (OSError (''[Errno 21] Is a directory: '' @ quoted csv_path))
          else Inr [(t1, ''16737''), (t3, ''16737'')], w')"
    and "http_calls w' = http_calls w + 3" and "sleeps w' = sleeps w @ [Sleep interval]"
    by blast
  then show ?thesis by auto
qed

theorem capture_and_process_pause_skipped_witness:
  "attempt_outcome sample_cv sample_env ''http://cam'' (0, 0, 2, 2) 3 (Finite 5) empty_world 0
     = Some (Captured ''16737'')
   \<and> attempt_outcome sample_cv sample_env ''http://cam'' (0, 0, 2, 2) 3 (Finite 5) empty_world 1
     = Some DownloadFailed
   \<and> attempt_outcome sample_cv sample_env ''http://cam'' (0, 0, 2, 2) 3 (Finite 5) empty_world 2
     = Some (Captured ''16737'')
   \<and> csv_path \<notin> dirs empty_world
   \<and> (\<exists>rs. fst (capture_and_process sample_cv sample_env ''http://cam'' (0, 0, 2, 2) 3 (Finite 5)
                   empty_world) = Inr rs)
   \<and> http_calls (snd (capture_and_process sample_cv sample_env ''http://cam'' (0, 0, 2, 2) 3
                        (Finite 5) empty_world)) = 3
   \<and> sleeps (snd (capture_and_process sample_cv sample_env ''http://cam'' (0, 0, 2, 2) 3
                    (Finite 5) empty_world)) = [Sleep (Finite 5)]"
proof -
  have ts: "time_sleep sample_env (Finite 5) = None"
    by (simp add: sample_env_def sample_sleep_def)
  have w: "http_calls empty_world = 0" "files empty_world ''meter_images'' = None"
    "\<forall>d \<in> dirs empty_world. last d \<noteq> CHR ''g''" "csv_path \<notin> dirs empty_world"
    "sleeps empty_world = []"
    by (simp_all add: empty_world_def sleeps_def)
  note o = sample_session [OF ts w(1,2,3), of "''http://cam''"]
  from capture_and_process_pause_skipped [OF o] w(1,4,5)
  obtain rs w' where "capture_and_process sample_cv sample_env ''http://cam'' (0, 0, 2, 2) 3 (Finite 5)
       empty_world = (Inr rs, w')"
    and "http_calls w' = 3" and "sleeps w' = [Sleep (Finite 5)]"
    by auto
  then have "\<exists>rs. fst (capture_and_process sample_cv sample_env ''http://cam'' (0, 0, 2, 2) 3 (Finite 5)
                   empty_world) = Inr rs"
    and "http_calls (snd (capture_and_process sample_cv sample_env ''http://cam'' (0, 0, 2, 2) 3
                        (Finite 5) empty_world)) = 3"
    and "sleeps (snd (capture_and_process sample_cv sample_env ''http://cam'' (0, 0, 2, 2) 3
                    (Finite 5) empty_world)) = [Sleep (Finite 5)]"
    by simp_all
  with o w(4) show ?thesis by simp
qed

section \<open>The table of readings\<close>

text \<open>
  Claim C10. A session that ends with no reading leaves \<open>meter_readings.csv\<close> as it was,
  absent or present (as a file and as a path of any kind): when the loop ends with no
  record, \<open>capture_and_process\<close> prints the summary, writes nothing and returns the empty list. A session whose downloads all fail
  ends so. A session that an exception ends leaves the file as it was, too.
\<close>

theorem capture_and_process_no_readings:
  "(\<forall>w'. capture_and_process cv ev url roi capture_count interval w = (Inr [], w') \<longrightarrow>
      files w' csv_path = files w csv_path \<and> file_exists w' csv_path = file_exists w csv_path
      \<and> path_exists w' csv_path = path_exists w csv_path)
   \<and> (\<forall>w3. capture_loop cv ev url roi capture_count interval (py_range capture_count) []
              (session_start ev capture_count interval w) = (Inr [], w3) \<longrightarrow>
        capture_and_process cv ev url roi capture_count interval w
          = (Inr [], print_summary [] capture_count w3))
   \<and> ((\<forall>n. download_failed (http_get ev n url)) \<longrightarrow>
        (\<exists>w'. capture_and_process cv ev url roi capture_count interval w = (Inr [], w')))
   \<and> (\<forall>e w'. capture_and_process cv ev url roi capture_count interval w = (Inl e, w') \<longrightarrow>
        files w' csv_path = files w csv_path)"
proof -
  have a: "files w' csv_path = files w csv_path \<and> file_exists w' csv_path = file_exists w csv_path
      \<and> path_exists w' csv_path = path_exists w csv_path"
    if "capture_and_process cv ev url roi capture_count interval w = (Inr [], w')" for w'
  proof -
    have "csv_path \<noteq> ''meter_images''" by (simp add: csv_path_def)
    with capture_and_process_dirs [OF that]
    have "csv_path \<in> dirs w' \<longleftrightarrow> csv_path \<in> dirs w" by auto
    with capture_and_process_csv [OF that] show ?thesis
      by (simp add: file_exists_def path_exists_def)
  qed
  have b: "capture_and_process cv ev url roi capture_count interval w
          = (Inr [], print_summary [] capture_count w3)"
    if "capture_loop cv ev url roi capture_count interval (py_range capture_count) []
              (session_start ev capture_count interval w) = (Inr [], w3)" for w3
    using that by (simp add: capture_and_process_unfold save_readings_empty)
  have c: "\<exists>w'. capture_and_process cv ev url roi capture_count interval w = (Inr [], w')"
    if "\<forall>n. download_failed (http_get ev n url)"
    using capture_and_process_offline [OF that] by blast
  have d: "files w' csv_path = files w csv_path"
    if "capture_and_process cv ev url roi capture_count interval w = (Inl e, w')" for e w'
    using capture_and_process_csv [OF that] by simp
  from a b c d show ?thesis by blast
qed

theorem capture_and_process_no_readings_witness:
  "(\<forall>n. download_failed (http_get offline_env n ''http://cam''))
   \<and> fst (capture_and_process sample_cv offline_env ''http://cam'' DEFAULT_ROI 2 (Finite 1) logged_world)
       = Inr []
   \<and> files (snd (capture_and_process sample_cv offline_env ''http://cam'' DEFAULT_ROI 2 (Finite 1)
                   logged_world)) csv_path = files logged_world csv_path
   \<and> files logged_world csv_path = Some (csv_header @ ''2024-01-01 00:00:00,16737'' @ nl)
   \<and> fst (capture_and_process sample_cv offline_env ''http://cam'' DEFAULT_ROI 2 (Finite 1) empty_world)
       = Inr []
   \<and> files (snd (capture_and_process sample_cv offline_env ''http://cam'' DEFAULT_ROI 2 (Finite 1)
                   empty_world)) csv_path = None"
proof -
  have off: "\<forall>n. download_failed (http_get offline_env n ''http://cam'')"
    by (simp add: offline_env_def)
  have frame: "files (snd (capture_and_process sample_cv offline_env ''http://cam'' DEFAULT_ROI 2
                             (Finite 1) v)) csv_path = files v csv_path
      \<and> fst (capture_and_process sample_cv offline_env ''http://cam'' DEFAULT_ROI 2 (Finite 1) v)
          = Inr []" for v
  proof -
    from capture_and_process_no_readings
      [of sample_cv offline_env "''http://cam''" DEFAULT_ROI 2 "Finite 1" v] off
    obtain w' where r: "capture_and_process sample_cv offline_env ''http://cam'' DEFAULT_ROI 2
        (Finite 1) v = (Inr [], w')" by blast
    with capture_and_process_no_readings
      [of sample_cv offline_env "''http://cam''" DEFAULT_ROI 2 "Finite 1" v]
    have "files w' csv_path = files v csv_path" by blast
    with r show ?thesis by simp
  qed
  have "files logged_world csv_path = Some (csv_header @ ''2024-01-01 00:00:00,16737'' @ nl)"
    and "files empty_world csv_path = None"
    by (simp_all add: logged_world_def empty_world_def)
  with off frame [of logged_world] frame [of empty_world] show ?thesis by simp
qed

text \<open>
  Claim C3, as amended. Two sessions that complete one after the other, started where
  \<open>meter_readings.csv\<close> does not exist: if at least one of them recorded a reading, the
  file then holds the header line \<open>timestamp,reading_kwh\<close> once, followed by the rows of
  the first session and then those of the second, one \<open>timestamp,reading\<close> row per
  record; if neither recorded a reading, the file still does not exist. A session with a
  record creates the file with the header when it is absent, and appends to what the file
  holds, without a header, when it is present.
\<close>

theorem two_sessions_csv:
  assumes absent: "files w0 csv_path = None"
    and first: "capture_and_process cv ev url1 roi1 count1 interval1 w0 = (Inr rs1, w1)"
    and second: "capture_and_process cv ev url2 roi2 count2 interval2 w1 = (Inr rs2, w2)"
  shows "files w1 csv_path
           = (if rs1 = [] then None else Some (csv_header @ concat (map csv_row rs1)))
       \<and> files w2 csv_path
           = (if rs1 @ rs2 = [] then None
              else Some (csv_header @ concat (map csv_row (rs1 @ rs2))))
       \<and> (\<forall>old. files w1 csv_path = Some old \<longrightarrow>
             files w2 csv_path = Some (old @ concat (map csv_row rs2)))"
proof -
  have f1: "files w1 csv_path
      = (if rs1 = [] then None else Some (csv_header @ concat (map csv_row rs1)))"
    using capture_and_process_csv [OF first] absent by simp
  have f2: "files w2 csv_path
      = (if rs2 = [] then files w1 csv_path
         else Some ((case files w1 csv_path of None \<Rightarrow> csv_header | Some old \<Rightarrow> old)
                    @ concat (map csv_row rs2)))"
    using capture_and_process_csv [OF second] by simp
  from f1 f2 show ?thesis by auto
qed

theorem two_sessions_csv_witness:
  "files empty_world csv_path = None
   \<and> (\<exists>t1 t2 w1 w2.
        capture_and_process sample_cv online_env ''http://cam'' (0, 0, 2, 2) 1 (Finite 1) empty_world
          = (Inr [(t1, ''16737'')], w1)
      \<and> capture_and_process sample_cv online_env ''http://cam'' (0, 0, 2, 2) 1 (Finite 1) w1
          = (Inr [(t2, ''16737'')], w2)
      \<and> files w1 csv_path = Some (csv_header @ t1 @ '',16737'' @ nl)
      \<and> files w2 csv_path = Some (csv_header @ t1 @ '',16737'' @ nl @ t2 @ '',16737'' @ nl))"
proof -
  have absent: "files empty_world csv_path = None" by (simp add: empty_world_def)
  have h: "http_get online_env n ''http://cam'' = Response 200 ''PIC''" for n
    by (simp add: online_env_def)
  have clock: "CHR ''/'' \<notin> set (strftime_now online_env n ''%Y%m%d_%H%M%S'')" for n
    using sample_clock(2) by simp
  have w: "files empty_world ''meter_images'' = None"
    "\<forall>d \<in> dirs empty_world. last d \<noteq> CHR ''g''" "csv_path \<notin> dirs empty_world"
    "dirs empty_world = {}"
    by (simp_all add: empty_world_def)
  from session_one_capture [where w = empty_world and iv = "Finite 1",
      OF h sample_library(2,3,1,4) w(1,2,3) clock]
  obtain t1 w1 where s1:
    "capture_and_process sample_cv online_env ''http://cam'' (0, 0, 2, 2) 1 (Finite 1) empty_world
       = (Inr [(t1, ''16737'')], w1)"
    and f1: "files w1 ''meter_images'' = None"
    and d1: "dirs w1 \<subseteq> insert ''meter_images'' (dirs empty_world)" by blast
  from d1 w(4) have d1': "\<forall>d \<in> dirs w1. last d \<noteq> CHR ''g''" "csv_path \<notin> dirs w1"
    by (auto simp: csv_path_def)
  from session_one_capture [where w = w1 and iv = "Finite 1",
      OF h sample_library(2,3,1,4) f1 d1' clock]
  obtain t2 w2 where s2:
    "capture_and_process sample_cv online_env ''http://cam'' (0, 0, 2, 2) 1 (Finite 1) w1
       = (Inr [(t2, ''16737'')], w2)" by blast
  from two_sessions_csv [OF absent s1 s2]
  have "files w1 csv_path = Some (csv_header @ t1 @ '',16737'' @ nl)"
    and "files w2 csv_path = Some (csv_header @ t1 @ '',16737'' @ nl @ t2 @ '',16737'' @ nl)"
    by simp_all
  with absent s1 s2 show ?thesis by blast
qed

text \<open>
  Claim C3 as first stated holds of any two sessions. Two sessions in which every download
  fails both complete with no record, and after them the file does not exist: it holds no
  header line.
\<close>

theorem two_sessions_without_readings_counterexample:
  "files empty_world csv_path = None
   \<and> fst (capture_and_process sample_cv offline_env ''http://cam'' (0, 0, 2, 2) 1 (Finite 1)
            empty_world) = Inr []
   \<and> fst (capture_and_process sample_cv offline_env ''http://cam'' (0, 0, 2, 2) 1 (Finite 1)
        (snd (capture_and_process sample_cv offline_env ''http://cam'' (0, 0, 2, 2) 1 (Finite 1)
                empty_world))) = Inr []
   \<and> files (snd (capture_and_process sample_cv offline_env ''http://cam'' (0, 0, 2, 2) 1 (Finite 1)
        (snd (capture_and_process sample_cv offline_env ''http://cam'' (0, 0, 2, 2) 1 (Finite 1)
                empty_world)))) csv_path = None"
proof -
  have off: "\<forall>n. download_failed (http_get offline_env n ''http://cam'')"
    by (simp add: offline_env_def)
  have run: "fst (capture_and_process sample_cv offline_env ''http://cam'' (0, 0, 2, 2) 1 (Finite 1) v)
        = Inr []
      \<and> files (snd (capture_and_process sample_cv offline_env ''http://cam'' (0, 0, 2, 2) 1
                      (Finite 1) v)) csv_path = files v csv_path" for v
  proof -
    from capture_and_process_offline [where cv = sample_cv and roi = "(0, 0, 2, 2)" and cc = 1
        and iv = "Finite 1" and w = v, OF off]
    obtain w' where r: "capture_and_process sample_cv offline_env ''http://cam'' (0, 0, 2, 2) 1
        (Finite 1) v = (Inr [], w')" by blast
    from capture_and_process_csv [OF r] r show ?thesis by simp
  qed
  have "files empty_world csv_path = None" by (simp add: empty_world_def)
  with run [of empty_world]
    run [of "snd (capture_and_process sample_cv offline_env ''http://cam'' (0, 0, 2, 2) 1 (Finite 1)
                    empty_world)"]
  show ?thesis by simp
qed

end
